theory Spec2Isabelle
  imports Complex_Main
begin

section \<open>Strings: \<open>src/util/string.ts\<close>\<close>

text \<open>
  A JavaScript string is modelled as a \<^typ>\<open>string\<close> whose characters are the code
  units \<open>0 .. 255\<close> (Latin-1). The character classes of the two regular expressions
  are ASCII ranges; \<open>toLowerCase\<close> maps \<open>A-Z\<close> and the Latin-1 capitals
  (\<open>0xC0 .. 0xDE\<close> without the multiplication sign \<open>0xD7\<close>) to the letter 32 places
  further on and leaves every other code unit alone.
\<close>

definition isUpper :: "char \<Rightarrow> bool" where
  "isUpper c = (65 \<le> (of_char c :: nat) \<and> (of_char c :: nat) \<le> 90)"

definition isLower :: "char \<Rightarrow> bool" where
  "isLower c = (97 \<le> (of_char c :: nat) \<and> (of_char c :: nat) \<le> 122)"

definition isDigit :: "char \<Rightarrow> bool" where
  "isDigit c = (48 \<le> (of_char c :: nat) \<and> (of_char c :: nat) \<le> 57)"

definition toLowerChar :: "char \<Rightarrow> char" where
  "toLowerChar c =
     (let n = (of_char c :: nat)
      in if (65 \<le> n \<and> n \<le> 90) \<or> (192 \<le> n \<and> n \<le> 222 \<and> n \<noteq> 215)
         then char_of (n + 32) else c)"

definition toLowerCase :: "string \<Rightarrow> string" where
  "toLowerCase s = map toLowerChar s"

text \<open>
  \<open>.replace(/([a-z0-9])([A-Z])/g, "$1-$2")\<close>: the scan goes from left to right; where
  the two characters at the cursor match, they are copied with a dash between them and
  the scan goes on behind the match, otherwise one character is copied.
\<close>

fun replaceLowerUpper :: "string \<Rightarrow> string" where
  "replaceLowerUpper (a # b # rest) =
     (if (isLower a \<or> isDigit a) \<and> isUpper b
      then a # CHR ''-'' # b # replaceLowerUpper rest
      else a # replaceLowerUpper (b # rest))"
| "replaceLowerUpper [a] = [a]"
| "replaceLowerUpper [] = []"

text \<open>
  \<open>.replace(/([A-Z]+)([A-Z][a-z])/g, "$1-$2")\<close>. \<open>acronymMatchAt s j\<close> says that the
  expression matches at the start of \<open>s\<close> with a first group of \<open>j\<close> characters. The
  quantifier \<open>+\<close> is greedy and backtracks: it first takes the whole run of capitals and
  gives back one character at a time, so the match is the one with the largest \<open>j\<close>.
\<close>

definition acronymMatchAt :: "string \<Rightarrow> nat \<Rightarrow> bool" where
  "acronymMatchAt s j =
     (1 \<le> j \<and> j + 1 < length s \<and> list_all isUpper (take j s)
      \<and> isUpper (s ! j) \<and> isLower (s ! (j + 1)))"

definition acronymMatch :: "string \<Rightarrow> nat option" where
  "acronymMatch s =
     find (acronymMatchAt s) (rev [1 ..< Suc (length (takeWhile isUpper s))])"

function replaceAcronym :: "string \<Rightarrow> string" where
  "replaceAcronym s =
     (if s = [] then []
      else case acronymMatch s of
             Some j \<Rightarrow> take j s @ CHR ''-'' # take 2 (drop j s) @ replaceAcronym (drop (j + 2) s)
           | None \<Rightarrow> hd s # replaceAcronym (tl s))"
  by pat_completeness auto
termination
  by (relation "measure length") auto

definition camelToKebabCase :: "string \<Rightarrow> string" where
  "camelToKebabCase str = toLowerCase (replaceAcronym (replaceLowerUpper str))"

text \<open>\<open>Array.prototype.join\<close> on a list of strings.\<close>

fun join :: "string \<Rightarrow> string list \<Rightarrow> string" where
  "join sep [] = []"
| "join sep [x] = x"
| "join sep (x # y # ys) = x @ sep @ join sep (y # ys)"

text \<open>The route key of a path: \<open>path.map(camelToKebabCase).join(".")\<close>.\<close>

definition routeKey :: "string list \<Rightarrow> string" where
  "routeKey path = join ''.'' (map camelToKebabCase path)"


section \<open>Values\<close>

text \<open>
  The JavaScript values that travel as arguments and results. A file handle carries its
  name, its MIME type and its content. Numbers are integers here.
\<close>

datatype jsfile = File (fileName: string) (fileType: string) (fileContent: string)

datatype jsval =
    VUndefined
  | VNull
  | VBool bool
  | VNum int
  | VStr string
  | VFile jsfile
  | VArr "jsval list"
  | VObj "(string \<times> jsval) list"

section \<open>Headers objects and the heap\<close>

text \<open>
  A \<open>Headers\<close> object of the Fetch API maps header names to values; names are
  case-insensitive, \<open>set\<close> and \<open>get\<close> lower-case them (ASCII). \<open>set\<close> replaces
  the value of a name that is already there.
\<close>

type_synonym headers = "string \<Rightarrow> string option"

definition headerName :: "string \<Rightarrow> string" where
  "headerName name = map (\<lambda>c. if isUpper c then char_of ((of_char c :: nat) + 32) else c) name"

definition headersSet :: "string \<Rightarrow> string \<Rightarrow> headers \<Rightarrow> headers" where
  "headersSet name v h = h(headerName name \<mapsto> v)"

definition headersGet :: "string \<Rightarrow> headers \<Rightarrow> string option" where
  "headersGet name h = h (headerName name)"

text \<open>
  \<open>Headers\<close> objects are shared by reference between the caller, the client context and
  the transport. The heap maps the address of each such object to its content;
  \<open>new Headers()\<close> takes the next free address.
\<close>

record heap =
  objects :: "nat \<Rightarrow> headers option"
  nextFree :: nat

definition newHeaders :: "heap \<Rightarrow> nat \<times> heap" where
  "newHeaders hp =
     (nextFree hp,
      hp\<lparr>objects := (objects hp)(nextFree hp \<mapsto> Map.empty), nextFree := Suc (nextFree hp)\<rparr>)"

definition headersAt :: "heap \<Rightarrow> nat \<Rightarrow> headers" where
  "headersAt hp ref = (case objects hp ref of Some h \<Rightarrow> h | None \<Rightarrow> Map.empty)"

definition setHeaderAt :: "nat \<Rightarrow> string \<Rightarrow> string \<Rightarrow> heap \<Rightarrow> heap" where
  "setHeaderAt ref name v hp =
     hp\<lparr>objects := (objects hp)(ref := map_option (headersSet name v) (objects hp ref))\<rparr>"


section \<open>The \<open>Map\<close> of arguments\<close>

text \<open>
  A JavaScript \<open>Map\<close> with string keys, in insertion order: \<open>set\<close> overwrites the value
  of a key in place or appends a new entry, \<open>delete\<close> removes the entry of a key.
\<close>

fun mapSet :: "string \<Rightarrow> 'v \<Rightarrow> (string \<times> 'v) list \<Rightarrow> (string \<times> 'v) list" where
  "mapSet k v [] = [(k, v)]"
| "mapSet k v ((k', v') # rest) =
     (if k' = k then (k, v) # rest else (k', v') # mapSet k v rest)"

definition mapDelete :: "string \<Rightarrow> (string \<times> 'v) list \<Rightarrow> (string \<times> 'v) list" where
  "mapDelete k m = filter (\<lambda>(k', v). k' \<noteq> k) m"

definition mapGet :: "string \<Rightarrow> (string \<times> 'v) list \<Rightarrow> 'v option" where
  "mapGet k m = map_of m k"

text \<open>\<open>new Map(entries)\<close>: the entries are set one after the other.\<close>

definition newMap :: "(string \<times> 'v) list \<Rightarrow> (string \<times> 'v) list" where
  "newMap entries = foldl (\<lambda>m (k, v). mapSet k v m) [] entries"


section \<open>Platform: codecs, coercions, HTTP messages\<close>

text \<open>
  The libraries and built-ins the code calls are parameters: the MessagePack codec
  (\<open>packr.pack\<close>, \<open>packr.unpack\<close>, which throws an error with a message on bad
  input), \<open>JSON.stringify\<close> and \<open>JSON.parse\<close>, \<open>btoa\<close>, the decoding of
  \<open>Buffer.from(s, "base64url")\<close>, the coercion \<open>String(value)\<close>, and the reading of
  the clock for \<open>elapsedTime\<close>, already as a string. So is the environment the client
  runs in: \<open>windowOrigin\<close> is \<open>window.location.origin\<close> where \<open>window\<close> and
  \<open>window.document\<close> are defined and nothing elsewhere; \<open>newURL input base\<close> is the
  constructor \<open>new URL(input, base)\<close>, which gives the address it has parsed or throws
  a \<open>TypeError\<close> (\<open>None\<close>), as it does for a relative input without a base.
\<close>

record platform =
  pack :: "jsval \<Rightarrow> string"
  unpack :: "string \<Rightarrow> string + jsval"
  jsonStringify :: "jsval \<Rightarrow> string"
  jsonParse :: "string \<Rightarrow> jsval option"
  btoa :: "string \<Rightarrow> string"
  fromBase64url :: "string \<Rightarrow> string"
  stringOf :: "jsval \<Rightarrow> string"
  elapsedTime :: string
  windowOrigin :: "string option"
  newURL :: "string \<Rightarrow> string option \<Rightarrow> string option"

datatype formPart = FormPart (partName: string) (partValue: jsfile) (partFilename: string)

datatype body = BodyBytes string | BodyForm "formPart list"

text \<open>What the client hands to \<open>fetch\<close> (or to \<open>XMLHttpRequest\<close>).\<close>

record request =
  url :: string
  searchParams :: "(string \<times> string) list"
  requestMethod :: string
  requestHeaders :: headers
  requestBody :: "body option"

text \<open>An HTTP response; its body is a byte string, empty when there is none.\<close>

record response =
  status :: int
  statusText :: string
  responseHeaders :: headers
  responseBody :: string

definition responseOk :: "response \<Rightarrow> bool" where
  "responseOk r = (200 \<le> status r \<and> status r \<le> 299)"


section \<open>Outcomes and the pipeline: \<open>src/util/pipeline.ts\<close>\<close>

text \<open>
  What a promise settles to: it resolves with a value or rejects with an exception. The
  exceptions told apart are a plain \<open>Error\<close> with its message, the \<open>ParseError\<close> of the
  request parsers, the validation library's \<open>ZodError\<close> with its issues, and the error
  of the transport that carries the response and its decoded data.
\<close>

datatype exn =
    JsError string
  | ParseError string
  | ZodError jsval
  | ErrorWithResponse string response jsval

datatype 'r outcome = Resolve 'r | Reject exn

text \<open>
  A middleware gets the state and \<open>next\<close>. The state is a mutable object, so the model
  passes it along: \<open>next\<close> runs on the state as it is when it is called and hands the
  updated state back with its outcome.
\<close>

type_synonym ('s, 'r) continuation = "'s \<Rightarrow> 'r outcome \<times> 's"

type_synonym ('s, 'r) middleware = "'s \<Rightarrow> ('s, 'r) continuation \<Rightarrow> 'r outcome \<times> 's"

definition exhaustedMessage :: string where
  "exhaustedMessage =
     ''Pipeline exhausted. Make sure the last middleware in the chain returns a result without calling next().''"

text \<open>The first \<open>pipeline\<close> of the file, with its helper \<open>execute\<close>.\<close>

function execute :: "'s \<Rightarrow> ('s, 'r) middleware list \<Rightarrow> nat \<Rightarrow> 'r outcome \<times> 's" where
  "execute state middlewares index =
     (if length middlewares \<le> index then (Reject (JsError exhaustedMessage), state)
      else (middlewares ! index) state (\<lambda>state'. execute state' middlewares (Suc index)))"
  by pat_completeness auto
termination
  by (relation "measure (\<lambda>(state, middlewares, index). length middlewares - index)") auto

definition pipeline :: "'s \<Rightarrow> ('s, 'r) middleware list \<Rightarrow> 'r outcome \<times> 's" where
  "pipeline state middlewares = execute state middlewares 0"

text \<open>
  The second \<open>pipeline\<close> of the file: it takes the first middleware off the list with
  \<open>shift\<close> and gives the rest to \<open>next\<close>.
\<close>

fun pipelineShift :: "'s \<Rightarrow> ('s, 'r) middleware list \<Rightarrow> 'r outcome \<times> 's" where
  "pipelineShift state [] = (Reject (JsError ''Middleware not found!''), state)"
| "pipelineShift state (middleware # middlewares) =
     middleware state (\<lambda>state'. pipelineShift state' middlewares)"

text \<open>
  A middleware that calls \<open>next()\<close> and returns its value: whatever the state and the
  continuation, its outcome is the outcome of a call of the continuation.
\<close>

definition returnsNext :: "('s, 'r) middleware \<Rightarrow> bool" where
  "returnsNext m = (\<forall>state next. \<exists>state'. fst (m state next) = fst (next state'))"

text \<open>
  The usual shape of such a middleware: work on the state, \<open>await next()\<close>, work on
  the state again, return what \<open>next\<close> gave.
\<close>

definition around :: "('s \<Rightarrow> 's) \<Rightarrow> ('s \<Rightarrow> 's) \<Rightarrow> ('s, 'r) middleware" where
  "around pre post =
     (\<lambda>state next. case next (pre state) of (r, state') \<Rightarrow> (r, post state'))"


section \<open>Client context: \<open>src/client/client-context.ts\<close>\<close>

datatype rpcType = Query | Command | Get

text \<open>
  \<open>CallOptions\<close>: \<open>headers\<close> is the address of the caller's \<open>Headers\<close> object, if one
  is given; of \<open>onProgress\<close> only its presence matters; an \<open>AbortSignal\<close> is given by
  whether it is aborted.
\<close>

record callOptions =
  optOnProgress :: bool
  optAbortSignal :: "bool option"
  optHeaders :: "nat option"
  optDebug :: bool

text \<open>
  The fields of \<open>ClientContext\<close>; \<open>headersRef\<close> is the address held by \<open>_headers\<close> and
  returned by \<open>request.headers\<close>. The scratch map \<open>env\<close> and the start time are left
  out.
\<close>

record clientContext =
  path :: "string list"
  args :: "(string \<times> jsval) list"
  rpcType :: rpcType
  headersRef :: nat
  abortSignal :: "bool option"
  onProgress :: bool
  result :: "jsval option"
  clientResponse :: "response option"

text \<open>
  The constructor. \<open>args\<close> is a record or \<open>undefined\<close>; \<open>Object.entries\<close> lists its
  fields.
\<close>

definition newClientContext ::
  "string list \<Rightarrow> (string \<times> jsval) list option \<Rightarrow> rpcType \<Rightarrow> callOptions \<Rightarrow> heap
   \<Rightarrow> clientContext \<times> heap" where
  "newClientContext pathSegments argsRecord rpc options hp =
     (let (ref, hp1) = (case optHeaders options of
                          Some given \<Rightarrow> (given, hp)
                        | None \<Rightarrow> newHeaders hp);
          hp2 = setHeaderAt ref ''accept'' ''application/msgpack'' hp1
      in (\<lparr>path = pathSegments,
           args = newMap (case argsRecord of Some entries \<Rightarrow> entries | None \<Rightarrow> []),
           rpcType = rpc,
           headersRef = ref,
           abortSignal = optAbortSignal options,
           onProgress = optOnProgress options,
           result = None,
           clientResponse = None\<rparr>, hp2))"

section \<open>Client proxies and transport: \<open>src/client/create-client.ts\<close>\<close>

subsection \<open>The middleware configuration proxy\<close>

text \<open>\<open>middlewareMap\<close> is a \<open>Map\<close> from route key to the list of middlewares.\<close>

type_synonym 'm middlewareMap = "string \<Rightarrow> 'm list option"

text \<open>What is assigned: one middleware or an array of them.\<close>

datatype 'm assignable = Single 'm | Array "'m list"

text \<open>
  The \<open>set\<close> trap of \<open>createSetterProxy(path)\<close> for the assignment
  \<open>cfg.path.prop = value\<close>; the \<open>get\<close> trap gives the proxy of \<open>path @ [prop]\<close>.
\<close>

definition setterSet ::
  "string list \<Rightarrow> string \<Rightarrow> 'm assignable \<Rightarrow> 'm middlewareMap \<Rightarrow> 'm middlewareMap" where
  "setterSet pathSegments prop v middlewareMap =
     (let keyPath = (if prop = ''$'' then pathSegments else pathSegments @ [prop]);
          key = join ''.'' (map camelToKebabCase keyPath);
          existing = (case middlewareMap key of Some l \<Rightarrow> l | None \<Rightarrow> []);
          newMiddlewares = (case v of Array l \<Rightarrow> l | Single m \<Rightarrow> [m])
      in middlewareMap(key \<mapsto> existing @ newMiddlewares))"

subsection \<open>The chain of a call\<close>

text \<open>
  The loop \<open>for (let i = 1; i <= ctx.path.length; i++)\<close> that pushes the list of each
  prefix key onto \<open>middlewares\<close>, and before it the list of the key \<open>""\<close>.
\<close>

function collectLoop :: "'m middlewareMap \<Rightarrow> string list \<Rightarrow> nat \<Rightarrow> 'm list \<Rightarrow> 'm list" where
  "collectLoop middlewareMap p i middlewares =
     (if i \<le> length p
      then collectLoop middlewareMap p (Suc i)
             (case middlewareMap (join ''.'' (map camelToKebabCase (take i p))) of
                Some l \<Rightarrow> middlewares @ l
              | None \<Rightarrow> middlewares)
      else middlewares)"
  by pat_completeness auto
termination
  by (relation "measure (\<lambda>(middlewareMap, p, i, middlewares). Suc (length p) - i)") auto

definition collectMiddlewares :: "'m middlewareMap \<Rightarrow> string list \<Rightarrow> 'm list" where
  "collectMiddlewares middlewareMap p =
     collectLoop middlewareMap p 1 (case middlewareMap [] of Some l \<Rightarrow> l | None \<Rightarrow> [])"

subsection \<open>The transport: \<open>call\<close>\<close>

definition isFile :: "jsval \<Rightarrow> bool" where
  "isFile v = (case v of VFile f \<Rightarrow> True | _ \<Rightarrow> False)"

text \<open>
  The test of the upload scan: \<open>value instanceof File || (Array.isArray(value) &&
  value.length > 0 && value.every(v => v instanceof File))\<close>.
\<close>

definition isUpload :: "jsval \<Rightarrow> bool" where
  "isUpload v =
     (case v of VFile f \<Rightarrow> True | VArr vs \<Rightarrow> vs \<noteq> [] \<and> list_all isFile vs | _ \<Rightarrow> False)"

text \<open>
  \<open>args.forEach\<close> visits the entries in order; an entry that passes the test is set in
  \<open>uploads\<close> and deleted from \<open>args\<close>. Deleting the entry being visited does not
  disturb the iteration.
\<close>

definition extractUploads ::
  "(string \<times> jsval) list \<Rightarrow> (string \<times> jsval) list \<times> (string \<times> jsval) list" where
  "extractUploads argsMap =
     foldl (\<lambda>(uploads, remaining) (key, v).
              if isUpload v then (mapSet key v uploads, mapDelete key remaining)
              else (uploads, remaining))
       ([], argsMap) argsMap"

definition endsWith :: "string \<Rightarrow> string \<Rightarrow> bool" where
  "endsWith s suffix =
     (length suffix \<le> length s \<and> drop (length s - length suffix) s = suffix)"

text \<open>
  \<open>encodeToBase64Url\<close>: \<open>btoa\<close>, then \<open>+\<close> becomes \<open>-\<close>, \<open>/\<close> becomes \<open>_\<close> and the
  padding at the end goes.
\<close>

definition encodeToBase64Url :: "platform \<Rightarrow> string \<Rightarrow> string" where
  "encodeToBase64Url P bytes =
     rev (dropWhile (\<lambda>c. c = CHR ''='')
       (rev (map (\<lambda>c. if c = CHR ''+'' then CHR ''-'' else if c = CHR ''/'' then CHR ''_'' else c)
               (btoa P bytes))))"

datatype requestType = GET | QUERY | UPLOAD | COMMAND

text \<open>The parts of the multipart body of an upload.\<close>

definition uploadParts ::
  "platform \<Rightarrow> (string \<times> jsval) list \<Rightarrow> (string \<times> jsval) list \<Rightarrow> formPart list" where
  "uploadParts P argsMap uploads =
     (if argsMap \<noteq> []
      then [FormPart ''args'' (File ''blob'' ''application/msgpack'' (pack P (VObj argsMap))) ''blob'']
      else [])
     @ concat (map (\<lambda>(key, v).
         case v of
           VArr fs \<Rightarrow>
             concat (map (\<lambda>f. case f of
                                VFile fl \<Rightarrow> [FormPart (if endsWith key ''[]'' then key else key @ ''[]'')
                                                fl (fileName fl)]
                              | _ \<Rightarrow> []) fs)
         | VFile fl \<Rightarrow> [FormPart key fl (fileName fl)]
         | _ \<Rightarrow> []) uploads)"

text \<open>
  \<open>call\<close> up to the request it hands to the network: the upload scan (which changes
  \<open>ctx.args\<close>), the URL, the search parameters and the body by request type, and the
  \<open>Content-Type\<close> written into the headers object of the context. The URL is made
  from the string \<open>`${baseUrl}/${pathString}`\<close>, with the document's origin as base in
  a browser and without a base elsewhere. When the constructor throws, \<open>call\<close> ends
  there: the scan has been done, but no request exists and nothing has been written into
  the headers.
\<close>

definition buildRequest ::
  "platform \<Rightarrow> string \<Rightarrow> clientContext \<Rightarrow> heap
   \<Rightarrow> request outcome \<times> clientContext \<times> heap" where
  "buildRequest P baseUrl ctx hp =
     (let isGet = (rpcType ctx = Get);
          isQuery = (rpcType ctx = Query);
          isCommand = (rpcType ctx = Command);
          (uploads, argsMap) = (if isCommand then extractUploads (args ctx) else ([], args ctx));
          hasUploads = (uploads \<noteq> []);
          pathString = join ''.'' (map camelToKebabCase (path ctx));
          requestType = (if isGet then GET else if isQuery then QUERY
                         else if hasUploads then UPLOAD else COMMAND);
          params = (case requestType of
                      GET \<Rightarrow> foldl (\<lambda>ps (key, v).
                                      if v \<noteq> VUndefined \<and> v \<noteq> VNull
                                      then mapSet key (stringOf P v) ps else ps) [] argsMap
                    | QUERY \<Rightarrow> (if argsMap \<noteq> []
                                then [(''args'', encodeToBase64Url P (pack P (VObj argsMap)))]
                                else [])
                    | _ \<Rightarrow> []);
          bodyInit = (case requestType of
                        UPLOAD \<Rightarrow> Some (BodyForm (uploadParts P argsMap uploads))
                      | COMMAND \<Rightarrow> Some (BodyBytes (pack P (VObj argsMap)))
                      | _ \<Rightarrow> None);
          hp1 = (if requestType = COMMAND
                 then setHeaderAt (headersRef ctx) ''Content-Type'' ''application/msgpack'' hp
                 else hp)
      in (case newURL P (baseUrl @ ''/'' @ pathString) (windowOrigin P) of
            None \<Rightarrow> (Reject (JsError ''TypeError''), ctx\<lparr>args := argsMap\<rparr>, hp)
          | Some href \<Rightarrow>
              (Resolve \<lparr>url = href,
                        searchParams = params,
                        requestMethod = (if isCommand then ''POST'' else ''GET''),
                        requestHeaders = headersAt hp1 (headersRef ctx),
                        requestBody = bodyInit\<rparr>,
               ctx\<lparr>args := argsMap\<rparr>, hp1)))"

text \<open>\<open>call\<close> from the response on: the handling of an empty body, decoding, failure.\<close>

definition decodeResponse :: "platform \<Rightarrow> response \<Rightarrow> jsval outcome" where
  "decodeResponse P r =
     (if responseBody r = []
      then (if status r = 204 then Resolve VNull
            else if \<not> responseOk r
            then Reject (JsError (''Server error: '' @ stringOf P (VNum (status r))
                                   @ '' '' @ statusText r))
            else Reject (JsError ''Unexpected empty response from server for successful request''))
      else case unpack P (responseBody r) of
             Inl message \<Rightarrow> Reject (JsError (''Failed to decode server response: '' @ message))
           | Inr unpacked \<Rightarrow>
               if \<not> responseOk r
               then Reject (ErrorWithResponse (''Server error: '' @ stringOf P (VNum (status r))
                                          @ '' '' @ statusText r) r unpacked)
               else Resolve unpacked)"

text \<open>
  The network is a parameter: given whether the call goes through \<open>fetchWithXhr\<close>
  (a progress callback is set) and the request, it resolves with a response or rejects.
  The state of a client call is the context and the heap.
\<close>

type_synonym network = "bool \<Rightarrow> request \<Rightarrow> response outcome"

definition call ::
  "platform \<Rightarrow> network \<Rightarrow> string \<Rightarrow> clientContext \<times> heap
   \<Rightarrow> jsval outcome \<times> (clientContext \<times> heap)" where
  "call P net baseUrl state =
     (case state of (ctx, hp) \<Rightarrow>
        (case buildRequest P baseUrl ctx hp of
           (Reject e, ctx1, hp1) \<Rightarrow> (Reject e, (ctx1, hp1))
         | (Resolve req, ctx1, hp1) \<Rightarrow>
             (case net (onProgress ctx1) req of
                Reject e \<Rightarrow> (Reject e, (ctx1, hp1))
              | Resolve r \<Rightarrow> (decodeResponse P r, (ctx1\<lparr>clientResponse := Some r\<rparr>, hp1)))))"

subsection \<open>The call proxy\<close>

text \<open>The last stage of the chain of a call.\<close>

definition transportStage ::
  "platform \<Rightarrow> network \<Rightarrow> string \<Rightarrow> (clientContext \<times> heap, jsval) middleware" where
  "transportStage P net baseUrl =
     (\<lambda>state next.
        case call P net baseUrl state of
          (Resolve res, (ctx, hp)) \<Rightarrow> (Resolve res, (ctx\<lparr>result := Some res\<rparr>, hp))
        | (Reject e, state') \<Rightarrow> (Reject e, state'))"

text \<open>What the function returned for a magic key gives back: the context or its result.\<close>

datatype callResult = ReturnedContext clientContext | ReturnedResult "jsval option"

text \<open>
  The function that \<open>createRecursiveProxy(pathSegments)\<close> returns for a magic key of
  the given RPC type (\<open>isContextRequested\<close> for the \<open>_ctx\<close> keys), applied to \<open>args\<close> and
  \<open>options\<close>. The debug output is left out.
\<close>

definition rpcCall ::
  "platform \<Rightarrow> network \<Rightarrow> string \<Rightarrow> (clientContext \<times> heap, jsval) middleware middlewareMap
   \<Rightarrow> string list \<Rightarrow> rpcType \<Rightarrow> bool \<Rightarrow> (string \<times> jsval) list option \<Rightarrow> callOptions \<Rightarrow> heap
   \<Rightarrow> callResult outcome \<times> heap" where
  "rpcCall P net baseUrl middlewareMap pathSegments rpc isContextRequested argsRecord options hp =
     (case newClientContext pathSegments argsRecord rpc options hp of (ctx, hp1) \<Rightarrow>
        (let middlewares = collectMiddlewares middlewareMap (path ctx)
         in (case pipeline (ctx, hp1) (middlewares @ [transportStage P net baseUrl]) of
               (Reject e, (ctx', hp')) \<Rightarrow> (Reject e, hp')
             | (Resolve res, (ctx', hp')) \<Rightarrow>
                 (Resolve (if isContextRequested then ReturnedContext ctx'
                           else ReturnedResult (result ctx')), hp'))))"

section \<open>Server context: \<open>src/server/server-context.ts\<close>\<close>

text \<open>
  What the host hands to the handler: the route parameter \<open>path\<close> (possibly missing) and
  the request, of which the handler reads the method, the search parameters of the URL,
  the headers and the body.
\<close>

record httpRequest =
  httpMethod :: string
  httpSearchParams :: "(string \<times> string) list"
  httpHeaders :: headers
  httpBody :: string

record requestEvent =
  paramsPath :: "string option"
  eventRequest :: httpRequest

text \<open>
  The fields of \<open>ServerContext\<close>: \<open>_cache\<close>, \<open>_status\<close>, \<open>args\<close>, \<open>event\<close>,
  \<open>headers.response\<close> and \<open>env\<close>; \<open>headers.request\<close> is read from the event.
\<close>

record serverContext =
  ctxCache :: int
  ctxStatus :: int
  ctxArgs :: "(string \<times> jsval) list"
  ctxEvent :: requestEvent
  ctxResponseHeaders :: headers
  ctxEnv :: "(string \<times> jsval) list"

text \<open>Decimal digits of a natural number, for the index keys of \<open>Object.entries\<close>.\<close>

function showNat :: "nat \<Rightarrow> string" where
  "showNat n = (if n < 10 then [char_of (48 + n)] else showNat (n div 10) @ [char_of (48 + n mod 10)])"
  by pat_completeness auto
termination
  by (relation "measure id") auto

text \<open>
  \<open>Object.entries(args || {})\<close>: the fields of a record, the indexed elements of an array
  or of a string, nothing for the other values.
\<close>

definition objectEntries :: "jsval \<Rightarrow> (string \<times> jsval) list" where
  "objectEntries v =
     (case v of
        VObj props \<Rightarrow> props
      | VArr vs \<Rightarrow> zip (map showNat [0 ..< length vs]) vs
      | VStr s \<Rightarrow> (if s = [] then [] else zip (map showNat [0 ..< length s]) (map (\<lambda>c. VStr [c]) s))
      | _ \<Rightarrow> [])"

definition newServerContext :: "jsval \<Rightarrow> requestEvent \<Rightarrow> serverContext" where
  "newServerContext argsValue ev =
     \<lparr>ctxCache = 0,
      ctxStatus = 200,
      ctxArgs = newMap (objectEntries argsValue),
      ctxEvent = ev,
      ctxResponseHeaders = Map.empty,
      ctxEnv = []\<rparr>"

definition getArgs :: "serverContext \<Rightarrow> jsval" where
  "getArgs ctx = VObj (ctxArgs ctx)"

text \<open>\<open>cache.set\<close> and \<open>cache.get\<close>.\<close>

definition cacheSet :: "real \<Rightarrow> serverContext \<Rightarrow> serverContext" where
  "cacheSet seconds ctx = ctx\<lparr>ctxCache := max 0 \<lfloor>seconds\<rfloor>\<rparr>"

definition cacheGet :: "serverContext \<Rightarrow> int" where
  "cacheGet ctx = ctxCache ctx"

text \<open>
  The operations of \<open>ctx.status\<close> that write: \<open>set\<close> with its argument, and the named
  shortcuts.
\<close>

datatype statusOp =
    StatusSet int
  | Continue | SwitchingProtocols | Processing
  | Ok | Created | Accepted | NoContent | ResetContent | PartialContent
  | MultipleChoices | MovedPermanently | Found | SeeOther | NotModified
  | TemporaryRedirect | PermanentRedirect
  | BadRequest | Unauthorized | PaymentRequired | Forbidden | NotFound
  | MethodNotAllowed | NotAcceptable | Conflict | Gone | LengthRequired
  | PreconditionFailed | PayloadTooLarge | UriTooLong | BadContent
  | RangeNotSatisfiable | ExpectationFailed | TooManyRequests
  | ServerError | NotImplemented | BadGateway | ServiceUnavailable
  | GatewayTimeout | HttpVersionNotSupported

fun statusApply :: "statusOp \<Rightarrow> serverContext \<Rightarrow> serverContext" where
  "statusApply (StatusSet code) ctx = ctx\<lparr>ctxStatus := code\<rparr>"
| "statusApply Continue ctx = ctx\<lparr>ctxStatus := 100\<rparr>"
| "statusApply SwitchingProtocols ctx = ctx\<lparr>ctxStatus := 101\<rparr>"
| "statusApply Processing ctx = ctx\<lparr>ctxStatus := 102\<rparr>"
| "statusApply Ok ctx = ctx\<lparr>ctxStatus := 200\<rparr>"
| "statusApply Created ctx = ctx\<lparr>ctxStatus := 201\<rparr>"
| "statusApply Accepted ctx = ctx\<lparr>ctxStatus := 202\<rparr>"
| "statusApply NoContent ctx = ctx\<lparr>ctxStatus := 204\<rparr>"
| "statusApply ResetContent ctx = ctx\<lparr>ctxStatus := 205\<rparr>"
| "statusApply PartialContent ctx = ctx\<lparr>ctxStatus := 206\<rparr>"
| "statusApply MultipleChoices ctx = ctx\<lparr>ctxStatus := 300\<rparr>"
| "statusApply MovedPermanently ctx = ctx\<lparr>ctxStatus := 301\<rparr>"
| "statusApply Found ctx = ctx\<lparr>ctxStatus := 302\<rparr>"
| "statusApply SeeOther ctx = ctx\<lparr>ctxStatus := 303\<rparr>"
| "statusApply NotModified ctx = ctx\<lparr>ctxStatus := 304\<rparr>"
| "statusApply TemporaryRedirect ctx = ctx\<lparr>ctxStatus := 307\<rparr>"
| "statusApply PermanentRedirect ctx = ctx\<lparr>ctxStatus := 308\<rparr>"
| "statusApply BadRequest ctx = ctx\<lparr>ctxStatus := 400\<rparr>"
| "statusApply Unauthorized ctx = ctx\<lparr>ctxStatus := 401\<rparr>"
| "statusApply PaymentRequired ctx = ctx\<lparr>ctxStatus := 402\<rparr>"
| "statusApply Forbidden ctx = ctx\<lparr>ctxStatus := 403\<rparr>"
| "statusApply NotFound ctx = ctx\<lparr>ctxStatus := 404\<rparr>"
| "statusApply MethodNotAllowed ctx = ctx\<lparr>ctxStatus := 405\<rparr>"
| "statusApply NotAcceptable ctx = ctx\<lparr>ctxStatus := 406\<rparr>"
| "statusApply Conflict ctx = ctx\<lparr>ctxStatus := 409\<rparr>"
| "statusApply Gone ctx = ctx\<lparr>ctxStatus := 410\<rparr>"
| "statusApply LengthRequired ctx = ctx\<lparr>ctxStatus := 411\<rparr>"
| "statusApply PreconditionFailed ctx = ctx\<lparr>ctxStatus := 412\<rparr>"
| "statusApply PayloadTooLarge ctx = ctx\<lparr>ctxStatus := 413\<rparr>"
| "statusApply UriTooLong ctx = ctx\<lparr>ctxStatus := 414\<rparr>"
| "statusApply BadContent ctx = ctx\<lparr>ctxStatus := 415\<rparr>"
| "statusApply RangeNotSatisfiable ctx = ctx\<lparr>ctxStatus := 416\<rparr>"
| "statusApply ExpectationFailed ctx = ctx\<lparr>ctxStatus := 417\<rparr>"
| "statusApply TooManyRequests ctx = ctx\<lparr>ctxStatus := 429\<rparr>"
| "statusApply ServerError ctx = ctx\<lparr>ctxStatus := 500\<rparr>"
| "statusApply NotImplemented ctx = ctx\<lparr>ctxStatus := 501\<rparr>"
| "statusApply BadGateway ctx = ctx\<lparr>ctxStatus := 502\<rparr>"
| "statusApply ServiceUnavailable ctx = ctx\<lparr>ctxStatus := 503\<rparr>"
| "statusApply GatewayTimeout ctx = ctx\<lparr>ctxStatus := 504\<rparr>"
| "statusApply HttpVersionNotSupported ctx = ctx\<lparr>ctxStatus := 505\<rparr>"

definition statusGet :: "serverContext \<Rightarrow> int" where
  "statusGet ctx = ctxStatus ctx"

text \<open>A valid HTTP status code: three digits, the first between 1 and 5.\<close>

definition validStatus :: "int \<Rightarrow> bool" where
  "validStatus code = (100 \<le> code \<and> code \<le> 599)"

section \<open>API definitions: \<open>src/server/types.ts\<close>, \<open>src/server/middleware.ts\<close>\<close>

type_synonym serverMiddleware = "(serverContext, jsval) middleware"

text \<open>
  An endpoint descriptor: the RPC type, the implementation, and the schema if there is
  one. \<open>zodSchema.parse\<close> gives the parsed value or throws a \<open>ZodError\<close> with its issues
  (\<open>Inl\<close>).
\<close>

record descriptor =
  descriptorRpcType :: rpcType
  implementation :: "jsval \<Rightarrow> serverContext \<Rightarrow> jsval outcome \<times> serverContext"
  zodSchema :: "(jsval \<Rightarrow> jsval + jsval) option"

text \<open>
  An API definition is a tree: a member of an object is an endpoint descriptor or a
  nested object. Each node carries the list stored under the symbol \<open>MIDDLEWARE\<close>
  (empty when there is none). The members of a nested object are not called
  \<open>rpcType\<close>; the fields of a descriptor and the properties an object inherits are not
  nodes of the tree.
\<close>

datatype apiNode =
    Endpoint descriptor "serverMiddleware list"
  | Group "(string \<times> apiNode) list" "serverMiddleware list"

fun getMiddlewares :: "apiNode \<Rightarrow> serverMiddleware list" where
  "getMiddlewares (Endpoint d mws) = mws"
| "getMiddlewares (Group members mws) = mws"

text \<open>
  \<open>addMiddleware\<close> on one target (the branch for a target that is not an array): the
  list is created when missing and the middlewares are pushed onto it.
\<close>

fun addMiddleware :: "apiNode \<Rightarrow> serverMiddleware assignable \<Rightarrow> apiNode" where
  "addMiddleware (Endpoint d mws) mw =
     Endpoint d (mws @ (case mw of Array l \<Rightarrow> l | Single m \<Rightarrow> [m]))"
| "addMiddleware (Group members mws) mw =
     Group members (mws @ (case mw of Array l \<Rightarrow> l | Single m \<Rightarrow> [m]))"


section \<open>The request handler: \<open>src/server/create-handler.ts\<close>\<close>

definition acceptedRequests :: "string list" where
  "acceptedRequests = [''GET.query'', ''GET.get'', ''POST.command'']"

definition acceptedMethods :: "string list" where
  "acceptedMethods = [''GET'', ''POST'']"

text \<open>The string of an RPC type, as it stands in a descriptor.\<close>

fun rpcTypeString :: "rpcType \<Rightarrow> string" where
  "rpcTypeString Query = ''query''"
| "rpcTypeString Command = ''command''"
| "rpcTypeString Get = ''get''"

text \<open>\<open>String.prototype.split\<close> with a separator of one character.\<close>

fun split :: "char \<Rightarrow> string \<Rightarrow> string list" where
  "split sep [] = [] # []"
| "split sep (c # cs) =
     (if c = sep then [] # split sep cs
      else case split sep cs of
             w # ws \<Rightarrow> (c # w) # ws
           | [] \<Rightarrow> [c] # [])"

text \<open>\<open>String.prototype.includes\<close>.\<close>

fun stringIncludes :: "string \<Rightarrow> string \<Rightarrow> bool" where
  "stringIncludes [] sub = (sub = [])"
| "stringIncludes (c # cs) sub = (take (length sub) (c # cs) = sub \<or> stringIncludes cs sub)"

text \<open>
  The loop of \<open>findRpcMethodDescriptor\<close> over the segments, from the node \<open>current\<close> on
  with the middlewares gathered so far. The last segment is the one with no rest.
\<close>

fun findLoop ::
  "string list \<Rightarrow> apiNode \<Rightarrow> serverMiddleware list \<Rightarrow> descriptor option \<times> serverMiddleware list" where
  "findLoop [] current middlewares = (None, [])"
| "findLoop (segment # rest) (Endpoint d mws) middlewares = (None, [])"
| "findLoop (segment # rest) (Group members mws) middlewares =
     (case map_of members segment of
        None \<Rightarrow> (None, [])
      | Some child \<Rightarrow>
          if rest = []
          then (case child of
                  Endpoint d cmws \<Rightarrow> (Some d, middlewares @ getMiddlewares child)
                | Group ms cmws \<Rightarrow> (None, []))
          else findLoop rest child (middlewares @ getMiddlewares child))"

definition findRpcMethodDescriptor ::
  "string list \<Rightarrow> apiNode \<Rightarrow> descriptor option \<times> serverMiddleware list" where
  "findRpcMethodDescriptor pathSegments apiDefinition =
     findLoop pathSegments apiDefinition (getMiddlewares apiDefinition)"

subsection \<open>Responses\<close>

text \<open>
  The constructor \<open>new Response(body, {status, headers})\<close> with a body that is not
  \<open>null\<close>: it throws a \<open>RangeError\<close> for a status outside \<open>200 .. 599\<close> and a
  \<open>TypeError\<close> for a status that allows no body.
\<close>

definition newResponse :: "string \<Rightarrow> int \<Rightarrow> headers \<Rightarrow> response outcome" where
  "newResponse content code hdrs =
     (if code < 200 \<or> 599 < code then Reject (JsError ''RangeError'')
      else if code = 204 \<or> code = 205 \<or> code = 304 then Reject (JsError ''TypeError'')
      else Resolve \<lparr>status = code, statusText = [], responseHeaders = hdrs,
                    responseBody = content\<rparr>)"

text \<open>
  A response with a text and a status only; the constructor gives a string body the
  content type of plain text.
\<close>

definition textResponse :: "string \<Rightarrow> int \<Rightarrow> response outcome" where
  "textResponse message code =
     newResponse message code (headersSet ''Content-Type'' ''text/plain;charset=UTF-8'' Map.empty)"

definition makeResponse :: "platform \<Rightarrow> jsval \<Rightarrow> serverContext \<Rightarrow> response outcome \<times> serverContext" where
  "makeResponse P res ctx =
     (let req = eventRequest (ctxEvent ctx);
          prefersJson = (case headersGet ''Accept'' (httpHeaders req) of
                           Some accept \<Rightarrow> stringIncludes accept ''application/json''
                         | None \<Rightarrow> False);
          h1 = headersSet ''X-Tango-Execution-Time'' (elapsedTime P) (ctxResponseHeaders ctx);
          h2 = headersSet ''Content-Type''
                 (if prefersJson then ''application/json'' else ''application/msgpack'') h1;
          h3 = (if httpMethod req = ''GET'' \<and> cacheGet ctx \<noteq> 0
                then headersSet ''Cache-Control''
                       (''public, max-age='' @ stringOf P (VNum (cacheGet ctx))) h2
                else h2);
          content = (if prefersJson then jsonStringify P res else pack P res);
          ctx1 = ctx\<lparr>ctxResponseHeaders := h3\<rparr>
      in (newResponse content (statusGet ctx1) h3, ctx1))"

subsection \<open>Parsing the arguments\<close>

text \<open>The values that \<open>||\<close> replaces by its right operand.\<close>

definition falsy :: "jsval \<Rightarrow> bool" where
  "falsy v = (v = VUndefined \<or> v = VNull \<or> v = VBool False \<or> v = VNum 0 \<or> v = VStr [])"

definition parseGet :: "httpRequest \<Rightarrow> jsval" where
  "parseGet req =
     VObj (foldl (\<lambda>argsObject (key, v). mapSet key (VStr v) argsObject) [] (httpSearchParams req))"

definition parseQuery :: "platform \<Rightarrow> httpRequest \<Rightarrow> jsval outcome" where
  "parseQuery P req =
     (case map_of (httpSearchParams req) ''args'' of
        None \<Rightarrow> Resolve (VObj [])
      | Some argsParam \<Rightarrow>
          (if argsParam = [] then Resolve (VObj [])
           else (case unpack P (fromBase64url P argsParam) of
                   Inl message \<Rightarrow> Reject (ParseError ''Invalid msgpackr body'')
                 | Inr v \<Rightarrow> Resolve v)))"

definition parseCommandMsgpackr :: "platform \<Rightarrow> httpRequest \<Rightarrow> jsval outcome" where
  "parseCommandMsgpackr P req =
     (if httpBody req = [] then Resolve (VObj [])
      else case unpack P (httpBody req) of
             Inl message \<Rightarrow> Reject (ParseError ''Invalid msgpackr body'')
           | Inr v \<Rightarrow> Resolve (if falsy v then VObj [] else v))"

definition parseCommandJson :: "platform \<Rightarrow> httpRequest \<Rightarrow> jsval outcome" where
  "parseCommandJson P req =
     (if httpBody req = [] then Resolve (VObj [])
      else case jsonParse P (httpBody req) of
             None \<Rightarrow> Reject (ParseError ''Invalid JSON body'')
           | Some v \<Rightarrow> Resolve (if falsy v then VObj [] else v))"

text \<open>
  The switch on the RPC type. How a multipart body is read
  (\<open>parseCommandMultipartFormData\<close>) is a parameter here: nothing below depends on it.
\<close>

definition parseArgs ::
  "platform \<Rightarrow> (httpRequest \<Rightarrow> jsval outcome) \<Rightarrow> rpcType \<Rightarrow> httpRequest \<Rightarrow> jsval outcome" where
  "parseArgs P parseCommandMultipartFormData rpc req =
     (case rpc of
        Get \<Rightarrow> Resolve (parseGet req)
      | Query \<Rightarrow> parseQuery P req
      | Command \<Rightarrow>
          (let requestContentType =
                 (case headersGet ''Content-Type'' (httpHeaders req) of Some t \<Rightarrow> t | None \<Rightarrow> [])
           in if stringIncludes requestContentType ''multipart/form-data''
              then parseCommandMultipartFormData req
              else if stringIncludes requestContentType ''application/json''
              then parseCommandJson P req
              else parseCommandMsgpackr P req))"

subsection \<open>Running the endpoint\<close>

text \<open>The last stage of the server's chain: validation, then the implementation.\<close>

definition endpointStage :: "descriptor \<Rightarrow> serverMiddleware" where
  "endpointStage d =
     (\<lambda>ctx next.
        case zodSchema d of
          None \<Rightarrow> implementation d (getArgs ctx) ctx
        | Some parse \<Rightarrow>
            (case parse (getArgs ctx) of
               Inl issues \<Rightarrow> (Reject (ZodError issues), ctx)
             | Inr parsed \<Rightarrow> implementation d parsed ctx))"

text \<open>The \<open>catch\<close> block around the pipeline and the response.\<close>

definition handleFailure :: "platform \<Rightarrow> exn \<Rightarrow> serverContext \<Rightarrow> response outcome" where
  "handleFailure P e ctx =
     (case e of
        ZodError issues \<Rightarrow>
          fst (makeResponse P issues
                 (statusApply (StatusSet 422)
                    (cacheSet 0
                       (ctx\<lparr>ctxResponseHeaders :=
                              headersSet ''X-Tango-Validation-Error'' ''true''
                                (ctxResponseHeaders ctx)\<rparr>))))
      | _ \<Rightarrow> textResponse ''Internal server error'' 500)"

text \<open>The \<open>try\<close> block: the pipeline over the context, then the response.\<close>

definition runEndpoint ::
  "platform \<Rightarrow> descriptor \<Rightarrow> serverMiddleware list \<Rightarrow> serverContext \<Rightarrow> response outcome" where
  "runEndpoint P d middlewares ctx =
     (case pipeline ctx (middlewares @ [endpointStage d]) of
        (Resolve res, ctx1) \<Rightarrow>
          (case makeResponse P res ctx1 of
             (Resolve r, ctx2) \<Rightarrow> Resolve r
           | (Reject e, ctx2) \<Rightarrow> handleFailure P e ctx2)
      | (Reject e, ctx1) \<Rightarrow> handleFailure P e ctx1)"

text \<open>
  The handler that \<open>createHandler(apiDefinition, options)\<close> returns;
  \<open>createServerContext\<close> is the factory of the options, if given.
\<close>

definition handler ::
  "platform \<Rightarrow> (httpRequest \<Rightarrow> jsval outcome) \<Rightarrow> apiNode
   \<Rightarrow> (jsval \<Rightarrow> requestEvent \<Rightarrow> serverContext) option \<Rightarrow> requestEvent \<Rightarrow> response outcome" where
  "handler P parseCommandMultipartFormData apiDefinition createServerContext ev =
     (let req = eventRequest ev in
      if httpMethod req \<notin> set acceptedMethods then textResponse ''Method not allowed'' 405
      else (case paramsPath ev of
        None \<Rightarrow> textResponse ''RPC method not found'' 404
      | Some p \<Rightarrow>
          (if p = [] then textResponse ''RPC method not found'' 404
           else (case findRpcMethodDescriptor (split CHR ''/'' p) apiDefinition of
             (None, middlewares) \<Rightarrow> textResponse ''RPC method not found'' 404
           | (Some d, middlewares) \<Rightarrow>
               (if httpMethod req @ ''.'' @ rpcTypeString (descriptorRpcType d) \<notin> set acceptedRequests
                then textResponse (''RPC type '' @ rpcTypeString (descriptorRpcType d)
                                    @ '' not allowed for '' @ httpMethod req @ '' requests'') 405
                else (case parseArgs P parseCommandMultipartFormData (descriptorRpcType d) req of
                  Reject (ParseError message) \<Rightarrow> textResponse message 400
                | Reject e \<Rightarrow> textResponse ''Internal server error'' 500
                | Resolve argsValue \<Rightarrow>
                    runEndpoint P d middlewares
                      ((case createServerContext of
                          Some create \<Rightarrow> create
                        | None \<Rightarrow> newServerContext) argsValue ev)))))))"

section \<open>Reference definitions for the properties\<close>

text \<open>
  Inserting a dash between every two neighbours that satisfy \<open>P\<close>: what the first pass
  is said to do, written without a cursor that skips.
\<close>

fun dashBetween :: "(char \<Rightarrow> char \<Rightarrow> bool) \<Rightarrow> string \<Rightarrow> string" where
  "dashBetween P (a # b # rest) =
     (if P a b then a # CHR ''-'' # dashBetween P (b # rest) else a # dashBetween P (b # rest))"
| "dashBetween P [a] = [a]"
| "dashBetween P [] = []"

text \<open>
  Inserting a dash between two neighbouring capitals when a small letter follows the
  second: what the second pass does, written position by position, without a search for
  the next match and without a cursor that skips.
\<close>

fun dashBeforePair :: "string \<Rightarrow> string" where
  "dashBeforePair (a # b # c # rest) =
     (if isUpper a \<and> isUpper b \<and> isLower c
      then a # CHR ''-'' # dashBeforePair (b # c # rest)
      else a # dashBeforePair (b # c # rest))"
| "dashBeforePair [a, b] = [a, b]"
| "dashBeforePair [a] = [a]"
| "dashBeforePair [] = []"

text \<open>A sequence of writing operations on \<open>ctx.status\<close>, applied from left to right.\<close>

definition statusRun :: "statusOp list \<Rightarrow> serverContext \<Rightarrow> serverContext" where
  "statusRun ops ctx = foldl (\<lambda>c op. statusApply op c) ctx ops"

text \<open>An operation that writes a valid code: a shortcut, or \<open>set\<close> with a valid code.\<close>

definition writesValid :: "statusOp \<Rightarrow> bool" where
  "writesValid op = (case op of StatusSet code \<Rightarrow> validStatus code | _ \<Rightarrow> True)"

text \<open>An event to try things on: a \<open>GET\<close> request without parameters, headers or body.\<close>

definition plainEvent :: requestEvent where
  "plainEvent =
     \<lparr>paramsPath = Some ''users/getProfile'',
      eventRequest = \<lparr>httpMethod = ''GET'', httpSearchParams = [], httpHeaders = Map.empty,
                      httpBody = []\<rparr>\<rparr>"

text \<open>The list a middleware map holds under a key, empty when the key is missing.\<close>

definition registered :: "'m middlewareMap \<Rightarrow> string \<Rightarrow> 'm list" where
  "registered middlewareMap key = (case middlewareMap key of Some l \<Rightarrow> l | None \<Rightarrow> [])"

text \<open>
  An assignment \<open>cfg.path.prop = value\<close> through the configuration proxy, the key it
  targets and the middlewares it names; and a sequence of such assignments, carried out
  from left to right.
\<close>

type_synonym 'm assignment = "string list \<times> string \<times> 'm assignable"

definition assignmentKey :: "'m assignment \<Rightarrow> string" where
  "assignmentKey a =
     (case a of (pathSegments, prop, v) \<Rightarrow>
        routeKey (if prop = ''$'' then pathSegments else pathSegments @ [prop]))"

definition assigned :: "'m assignment \<Rightarrow> 'm list" where
  "assigned a = (case a of (pathSegments, prop, v) \<Rightarrow> (case v of Array l \<Rightarrow> l | Single m \<Rightarrow> [m]))"

definition configure :: "'m assignment list \<Rightarrow> 'm middlewareMap \<Rightarrow> 'm middlewareMap" where
  "configure assignments middlewareMap =
     foldl (\<lambda>mm (pathSegments, prop, v). setterSet pathSegments prop v mm) middlewareMap assignments"

text \<open>
  The chain the properties speak of: the global list, then the list of each prefix of the
  path by growing length, then the last stage.
\<close>

definition chainOf :: "'m middlewareMap \<Rightarrow> string list \<Rightarrow> 'm \<Rightarrow> 'm list" where
  "chainOf middlewareMap p terminal =
     registered middlewareMap []
     @ concat (map (\<lambda>i. registered middlewareMap (routeKey (take i p))) [1 ..< Suc (length p)])
     @ [terminal]"

text \<open>Inputs to try the client on: no options, an empty heap, two files, a command call.\<close>

definition noOptions :: callOptions where
  "noOptions = \<lparr>optOnProgress = False, optAbortSignal = None, optHeaders = None, optDebug = False\<rparr>"

definition emptyHeap :: heap where
  "emptyHeap = \<lparr>objects = Map.empty, nextFree = 0\<rparr>"

definition photo :: jsfile where
  "photo = File ''a.png'' ''image/png'' ''png-bytes''"

definition letter :: jsfile where
  "letter = File ''b.txt'' ''text/plain'' ''hello''"

definition uploadContext :: clientContext where
  "uploadContext =
     fst (newClientContext [''media'', ''upload'']
            (Some [(''files[]'', VArr [VFile photo, VFile letter]),
                   (''note'', VStr ''x''),
                   (''mixed'', VArr [VFile photo, VStr ''a'']),
                   (''none'', VArr []),
                   (''doc'', VFile letter)])
            Command noOptions emptyHeap)"

text \<open>
  A URL constructor to try things on: it takes a string that starts with \<open>https://\<close>
  as it is, puts the base before any other string, and throws when there is no base.
\<close>

definition sampleNewURL :: "string \<Rightarrow> string option \<Rightarrow> string option" where
  "sampleNewURL input base =
     (if take 8 input = ''https://'' then Some input
      else case base of Some origin \<Rightarrow> Some (origin @ input) | None \<Rightarrow> None)"

text \<open>
  A platform to try things on: the codecs give fixed strings, nothing can be decoded, and
  the client runs in a browser on a page of \<open>https://example.org\<close>. The second one is
  the same outside a browser.
\<close>

definition samplePlatform :: platform where
  "samplePlatform =
     \<lparr>pack = (\<lambda>v. ''packed''),
      unpack = (\<lambda>bytes. Inl ''cannot decode''),
      jsonStringify = (\<lambda>v. ''json''),
      jsonParse = (\<lambda>s. None),
      btoa = (\<lambda>bytes. ''cGFja2Vk''),
      fromBase64url = (\<lambda>s. ''packed''),
      stringOf = (\<lambda>v. ''value''),
      elapsedTime = ''0.5'',
      windowOrigin = Some ''https://example.org'',
      newURL = sampleNewURL\<rparr>"

definition nodePlatform :: platform where
  "nodePlatform = samplePlatform\<lparr>windowOrigin := None\<rparr>"

text \<open>
  A caller who made \<open>new Headers({Accept: "application/json"})\<close> on the empty heap and
  passes it in the options of a call.
\<close>

definition callerHeap :: heap where
  "callerHeap =
     (case newHeaders emptyHeap of (ref, hp) \<Rightarrow> setHeaderAt ref ''Accept'' ''application/json'' hp)"

definition callerOptions :: callOptions where
  "callerOptions = noOptions\<lparr>optHeaders := Some 0\<rparr>"

text \<open>A network on which every request fails.\<close>

definition offline :: network where
  "offline = (\<lambda>viaXhr req. Reject (JsError ''Network error''))"

text \<open>
  The value of \<open>Accept\<close> in the headers object of the context, as the state of a client
  call has it: what \<open>ctx.request.headers.get("Accept")\<close> gives.
\<close>

definition sentAccept :: "clientContext \<times> heap \<Rightarrow> string option" where
  "sentAccept state =
     (case state of (ctx, hp) \<Rightarrow> headersGet ''Accept'' (headersAt hp (headersRef ctx)))"

text \<open>
  A client middleware that leaves the \<open>Accept\<close> entry as it found it: it calls \<open>next\<close>
  only on states whose headers hold the value of \<open>Accept\<close> that it was given, so two
  continuations that agree on those states give the same run.
\<close>

definition keepsAccept :: "(clientContext \<times> heap, jsval) middleware \<Rightarrow> bool" where
  "keepsAccept m =
     (\<forall>state next next'.
        (\<forall>state'. sentAccept state' = sentAccept state \<longrightarrow> next state' = next' state')
        \<longrightarrow> m state next = m state next')"

text \<open>
  Two client middlewares: the first does \<open>ctx.request.headers.set("X-Trace", "1")\<close> and
  awaits \<open>next()\<close>, the second does \<open>ctx.request.headers.set("Accept",
  "application/json")\<close> and awaits \<open>next()\<close>.
\<close>

definition traceHeader :: "(clientContext \<times> heap, jsval) middleware" where
  "traceHeader =
     around (\<lambda>state. case state of (ctx, hp) \<Rightarrow>
               (ctx, setHeaderAt (headersRef ctx) ''X-Trace'' ''1'' hp)) id"

definition acceptJson :: "(clientContext \<times> heap, jsval) middleware" where
  "acceptJson =
     around (\<lambda>state. case state of (ctx, hp) \<Rightarrow>
               (ctx, setHeaderAt (headersRef ctx) ''Accept'' ''application/json'' hp)) id"

text \<open>
  A network that fails on every request with the value of its \<open>Accept\<close> header as the
  message: the outcome of a call shows what was sent.
\<close>

definition echoAccept :: network where
  "echoAccept =
     (\<lambda>viaXhr req. Reject (JsError (case headersGet ''Accept'' (requestHeaders req) of
                                       Some v \<Rightarrow> v
                                     | None \<Rightarrow> ''no Accept header'')))"

text \<open>Whether the request asks for JSON: its \<open>Accept\<close> header includes \<open>application/json\<close>.\<close>

definition prefersJson :: "httpRequest \<Rightarrow> bool" where
  "prefersJson req =
     (case headersGet ''Accept'' (httpHeaders req) of
        Some accept \<Rightarrow> stringIncludes accept ''application/json''
      | None \<Rightarrow> False)"

text \<open>
  An API to try the handler on: \<open>users.getProfile\<close> is a query without schema;
  \<open>posts.create\<close> is a command without schema whose implementation sets the status
  \<open>created\<close>; \<open>posts.search\<close> is a query whose schema asks for a string \<open>q\<close>. The
  group \<open>posts\<close> carries a middleware that sets the cache to a minute.
\<close>

definition getProfile :: descriptor where
  "getProfile =
     \<lparr>descriptorRpcType = Query,
      implementation = (\<lambda>a ctx. (Resolve (VObj [(''id'', VNum 1), (''name'', VStr ''a'')]), ctx)),
      zodSchema = None\<rparr>"

definition createPost :: descriptor where
  "createPost =
     \<lparr>descriptorRpcType = Command,
      implementation = (\<lambda>a ctx. (Resolve (VStr ''created''), statusApply Created ctx)),
      zodSchema = None\<rparr>"

definition searchIssues :: jsval where
  "searchIssues = VArr [VObj [(''path'', VArr [VStr ''q'']), (''message'', VStr ''Required'')]]"

definition searchSchema :: "jsval \<Rightarrow> jsval + jsval" where
  "searchSchema v =
     (case v of
        VObj props \<Rightarrow> (case map_of props ''q'' of Some (VStr q) \<Rightarrow> Inr v | _ \<Rightarrow> Inl searchIssues)
      | _ \<Rightarrow> Inl searchIssues)"

definition searchPosts :: descriptor where
  "searchPosts =
     \<lparr>descriptorRpcType = Query,
      implementation = (\<lambda>a ctx. (Resolve (VArr []), ctx)),
      zodSchema = Some searchSchema\<rparr>"

definition cacheMinute :: serverMiddleware where
  "cacheMinute = around (cacheSet 60) id"

definition sampleApi :: apiNode where
  "sampleApi =
     Group [(''users'', Group [(''getProfile'', Endpoint getProfile [])] []),
            (''posts'', Group [(''create'', Endpoint createPost []),
                               (''search'', Endpoint searchPosts [])] [cacheMinute])] []"

text \<open>
  A server middleware that does \<open>ctx.headers.response.set("Cache-Control", "no-store")\<close>
  and awaits \<open>next()\<close>, and an API whose group \<open>posts\<close> carries it.
\<close>

definition noStore :: serverMiddleware where
  "noStore =
     around (\<lambda>ctx. ctx\<lparr>ctxResponseHeaders :=
                          headersSet ''Cache-Control'' ''no-store'' (ctxResponseHeaders ctx)\<rparr>) id"

definition noStoreApi :: apiNode where
  "noStoreApi = Group [(''posts'', Group [(''search'', Endpoint searchPosts [])] [noStore])] []"

text \<open>A request without a multipart body: reading it as form data fails.\<close>

definition noFormData :: "httpRequest \<Rightarrow> jsval outcome" where
  "noFormData = (\<lambda>req. Reject (JsError ''TypeError''))"

text \<open>
  Events: the route the client builds for \<open>users.getProfile\<close>; a \<open>POST\<close> to
  \<open>posts/create\<close> with \<open>Content-Type: text/plain\<close> and no body; a \<open>GET\<close> of
  \<open>posts/search\<close> without arguments.
\<close>

definition dottedEvent :: requestEvent where
  "dottedEvent = plainEvent\<lparr>paramsPath := Some ''users.get-profile''\<rparr>"

definition textPlainEvent :: requestEvent where
  "textPlainEvent =
     \<lparr>paramsPath = Some ''posts/create'',
      eventRequest = \<lparr>httpMethod = ''POST'', httpSearchParams = [],
                      httpHeaders = headersSet ''Content-Type'' ''text/plain'' Map.empty,
                      httpBody = []\<rparr>\<rparr>"

definition searchEvent :: requestEvent where
  "searchEvent = plainEvent\<lparr>paramsPath := Some ''posts/search''\<rparr>"


section \<open>Properties of the string normalizer\<close>

declare replaceAcronym.simps [simp del]

lemma upper_not_lower_digit: "isUpper c \<Longrightarrow> \<not> isLower c \<and> \<not> isDigit c"
  by (auto simp: isUpper_def isLower_def isDigit_def)

lemma dashBetween_upper:
  "isUpper b \<Longrightarrow> dashBetween (\<lambda>a b. (isLower a \<or> isDigit a) \<and> isUpper b) (b # rest)
     = b # dashBetween (\<lambda>a b. (isLower a \<or> isDigit a) \<and> isUpper b) rest"
  by (cases rest) (auto dest: upper_not_lower_digit)

lemma replaceLowerUpper_dashBetween:
  "replaceLowerUpper s = dashBetween (\<lambda>a b. (isLower a \<or> isDigit a) \<and> isUpper b) s"
  by (induction s rule: replaceLowerUpper.induct) (auto simp: dashBetween_upper)

lemma find_unique:
  assumes "a \<in> set xs" and "P a" and "\<And>x. x \<in> set xs \<Longrightarrow> P x \<Longrightarrow> x = a"
  shows "find P xs = Some a"
  using assms
proof (induction xs)
  case Nil
  then show ?case by simp
next
  case (Cons y ys)
  show ?case
  proof (cases "P y")
    case True
    have "y = a" by (rule Cons.prems(3)) (simp_all add: True)
    with True show ?thesis by simp
  next
    case False
    have mem: "a \<in> set ys" using Cons.prems(1) Cons.prems(2) False by auto
    have "find P ys = Some a"
    proof (rule Cons.IH[OF mem Cons.prems(2)])
      fix x assume "x \<in> set ys" "P x"
      then show "x = a" by (intro Cons.prems(3)) simp_all
    qed
    with False show ?thesis by simp
  qed
qed

lemma run_nth: "j < length (takeWhile P s) \<Longrightarrow> P (s ! j)"
  by (metis nth_mem set_takeWhileD takeWhile_nth)

lemma run_prefix: "j \<le> length (takeWhile P s) \<Longrightarrow> list_all P (take j s)"
proof -
  assume j: "j \<le> length (takeWhile P s)"
  have "P (take j s ! n)" if "n < length (take j s)" for n
  proof -
    from that have "n < j" by simp
    then have "n < length (takeWhile P s)" using j by simp
    then have "P (s ! n)" by (rule run_nth)
    then show ?thesis using \<open>n < j\<close> by simp
  qed
  then show ?thesis by (simp add: list_all_length)
qed

lemma run_end: "length (takeWhile P s) < length s \<Longrightarrow> \<not> P (s ! length (takeWhile P s))"
  by (rule nth_length_takeWhile)

text \<open>
  Among the lengths the backtracking tries, only one can match: the run of capitals
  without its last letter, and only when the run has two letters at least and a small
  letter follows it.
\<close>

lemma acronymMatchAt_iff:
  assumes "j \<in> set (rev [1 ..< Suc (length (takeWhile isUpper s))])"
  shows "acronymMatchAt s j \<longleftrightarrow>
           (2 \<le> length (takeWhile isUpper s) \<and> length (takeWhile isUpper s) < length s
            \<and> isLower (s ! length (takeWhile isUpper s)) \<and> j = length (takeWhile isUpper s) - 1)"
proof -
  let ?k = "length (takeWhile isUpper s)"
  from assms have j: "1 \<le> j" "j \<le> ?k" by auto
  show ?thesis
  proof
    assume m: "acronymMatchAt s j"
    then have a: "j + 1 < length s" "isUpper (s ! j)" "isLower (s ! (j + 1))"
      by (auto simp: acronymMatchAt_def)
    have "j \<noteq> ?k" using a(2) run_end[of isUpper s] a(1) by auto
    then have lt: "j < ?k" using j by simp
    have "\<not> j + 1 < ?k"
    proof
      assume "j + 1 < ?k"
      then have "isUpper (s ! (j + 1))" by (rule run_nth)
      with a(3) show False by (auto dest: upper_not_lower_digit)
    qed
    then have "j + 1 = ?k" using lt by simp
    then show "2 \<le> ?k \<and> ?k < length s \<and> isLower (s ! ?k) \<and> j = ?k - 1"
      using a j by auto
  next
    assume r: "2 \<le> ?k \<and> ?k < length s \<and> isLower (s ! ?k) \<and> j = ?k - 1"
    then have "j < ?k" "j + 1 = ?k" by auto
    then show "acronymMatchAt s j"
      using r j run_nth[of j isUpper s] run_prefix[of j isUpper s]
      by (auto simp: acronymMatchAt_def)
  qed
qed

lemma acronymMatch_eq:
  "acronymMatch s =
     (let k = length (takeWhile isUpper s)
      in if 2 \<le> k \<and> k < length s \<and> isLower (s ! k) then Some (k - 1) else None)"
proof -
  let ?k = "length (takeWhile isUpper s)"
  let ?c = "rev [1 ..< Suc ?k]"
  show ?thesis
  proof (cases "2 \<le> ?k \<and> ?k < length s \<and> isLower (s ! ?k)")
    case True
    then have mem: "?k - 1 \<in> set ?c" by auto
    have "find (acronymMatchAt s) ?c = Some (?k - 1)"
    proof (rule find_unique[OF mem])
      show "acronymMatchAt s (?k - 1)" using acronymMatchAt_iff[OF mem] True by simp
    next
      fix x assume "x \<in> set ?c" "acronymMatchAt s x"
      then show "x = ?k - 1" using acronymMatchAt_iff[of x s] by simp
    qed
    with True show ?thesis by (simp add: acronymMatch_def Let_def)
  next
    case False
    have "find (acronymMatchAt s) ?c = None"
      unfolding find_None_iff using acronymMatchAt_iff[of _ s] False by blast
    with False show ?thesis by (simp add: acronymMatch_def Let_def)
  qed
qed

lemma dashBeforePair_skip: "\<not> isUpper a \<Longrightarrow> dashBeforePair (a # xs) = a # dashBeforePair xs"
proof (cases xs)
  case Nil
  then show ?thesis by simp
next
  case (Cons b ys)
  assume "\<not> isUpper a"
  then show ?thesis using Cons by (cases ys) simp_all
qed

lemma dashBeforePair_skip2:
  "\<not> isUpper b \<Longrightarrow> dashBeforePair (a # b # xs) = a # b # dashBeforePair xs"
  by (cases xs) (simp_all add: dashBeforePair_skip)

text \<open>
  On a run of capitals that a small letter follows, the reference pass puts one dash:
  before the last capital, when the run has two at least.
\<close>

lemma dashBeforePair_run:
  "list_all isUpper us \<Longrightarrow> us \<noteq> [] \<Longrightarrow> isLower l \<Longrightarrow>
   dashBeforePair (us @ l # rest) =
     (if 2 \<le> length us then butlast us @ [CHR ''-'', last us] else us) @ l # dashBeforePair rest"
proof (induction us)
  case Nil
  then show ?case by simp
next
  case (Cons u us)
  have nl: "\<not> isUpper l" using Cons.prems(3) upper_not_lower_digit by blast
  show ?case
  proof (cases us)
    case Nil
    show ?thesis using nl by (simp add: Nil dashBeforePair_skip2)
  next
    case (Cons u' us')
    have up: "isUpper u" "isUpper u'" "list_all isUpper us" using Cons.prems(1) Cons by simp_all
    show ?thesis
    proof (cases us')
      case Nil
      show ?thesis
        using up Cons.prems(3) nl by (simp add: Cons Nil dashBeforePair_skip2)
    next
      case (Cons u'' us'')
      have u'': "isUpper u''" using up(3) \<open>us = u' # us'\<close> Cons by simp
      then have "\<not> isLower u''" using upper_not_lower_digit by blast
      then have "dashBeforePair (u # us @ l # rest) = u # dashBeforePair (us @ l # rest)"
        by (simp add: \<open>us = u' # us'\<close> Cons)
      moreover have "dashBeforePair (us @ l # rest) =
          (butlast us @ [CHR ''-'', last us]) @ l # dashBeforePair rest"
        using Cons.IH[OF up(3) _ Cons.prems(3)] \<open>us = u' # us'\<close> Cons by simp
      ultimately show ?thesis by (simp add: \<open>us = u' # us'\<close> Cons)
    qed
  qed
qed

lemma run_split:
  assumes "length (takeWhile isUpper s) < length s"
  shows "s = takeWhile isUpper s @ s ! length (takeWhile isUpper s)
               # drop (Suc (length (takeWhile isUpper s))) s"
proof -
  let ?k = "length (takeWhile isUpper s)"
  have "s = take ?k s @ drop ?k s" by simp
  moreover have "take ?k s = takeWhile isUpper s"
    by (metis append_eq_conv_conj takeWhile_dropWhile_id)
  moreover have "drop ?k s = s ! ?k # drop (Suc ?k) s"
    using assms by (simp add: Cons_nth_drop_Suc)
  ultimately show ?thesis by metis
qed

text \<open>The second pass is the reference pass, on every string.\<close>

lemma replaceAcronym_dashBeforePair: "replaceAcronym s = dashBeforePair s"
proof (induction s rule: replaceAcronym.induct)
  case (1 s)
  let ?k = "length (takeWhile isUpper s)"
  show ?case
  proof (cases "s = []")
    case True
    then show ?thesis by (subst replaceAcronym.simps) simp
  next
    case False
    show ?thesis
    proof (cases "2 \<le> ?k \<and> ?k < length s \<and> isLower (s ! ?k)")
      case True
      define j where "j = ?k - 1"
      from True have m: "acronymMatch s = Some j" by (simp add: acronymMatch_eq Let_def j_def)
      define us where "us = takeWhile isUpper s"
      define l where "l = s ! ?k"
      define rest where "rest = drop (Suc ?k) s"
      have s: "s = us @ l # rest"
        unfolding us_def l_def rest_def using True by (intro run_split) simp
      have len: "length us = ?k" by (simp add: us_def)
      have us: "list_all isUpper us" "us \<noteq> []" "2 \<le> length us" "isLower l"
        using True by (auto simp: us_def l_def list_all_iff dest: set_takeWhileD)
      have j: "j = length us - 1" by (simp add: j_def len)
      have t1: "take j s = butlast us"
        by (subst s) (simp add: j butlast_conv_take)
      have d1: "drop j s = last us # l # rest"
      proof -
        have "drop (length us - 1) us = [last us]"
          using us(2) by (metis append_butlast_last_id append_eq_conv_conj length_butlast)
        then show ?thesis by (subst s) (simp add: j)
      qed
      have "Suc (Suc j) = Suc ?k" using us(3) len by (simp add: j_def)
      then have d2: "drop (Suc (Suc j)) s = rest"
        by (simp only: rest_def)
      have "replaceAcronym s =
              butlast us @ CHR ''-'' # [last us, l] @ replaceAcronym rest"
        by (subst replaceAcronym.simps) (simp add: False m t1 d1 d2)
      also have "replaceAcronym rest = dashBeforePair rest"
        using "1.IH"(2)[OF False m] by (simp add: d2)
      also have "butlast us @ CHR ''-'' # [last us, l] @ dashBeforePair rest = dashBeforePair (us @ l # rest)"
        using dashBeforePair_run[OF us(1) us(2) us(4), of rest] us(3) by simp
      finally show ?thesis using s by simp
    next
      case no: False
      then have m: "acronymMatch s = None" by (simp add: acronymMatch_eq Let_def)
      obtain a xs where s: "s = a # xs" using False by (cases s) auto
      have "replaceAcronym s = a # replaceAcronym xs"
        using m by (subst replaceAcronym.simps) (simp add: s)
      also have "replaceAcronym xs = dashBeforePair xs"
        using "1.IH"(1)[OF False m] by (simp add: s)
      also have "a # dashBeforePair xs = dashBeforePair s"
      proof (cases xs)
        case Nil
        then show ?thesis by (simp add: s)
      next
        case (Cons b ys)
        show ?thesis
        proof (cases ys)
          case Nil
          then show ?thesis by (simp add: s Cons)
        next
          case (Cons c r)
          have "\<not> (isUpper a \<and> isUpper b \<and> isLower c)"
          proof
            assume h: "isUpper a \<and> isUpper b \<and> isLower c"
            then have "\<not> isUpper c" using upper_not_lower_digit by blast
            then have "?k = 2" using h by (simp add: s \<open>xs = b # ys\<close> Cons)
            then show False using no h by (simp add: s \<open>xs = b # ys\<close> Cons)
          qed
          then show ?thesis by (auto simp: s \<open>xs = b # ys\<close> Cons)
        qed
      qed
      finally show ?thesis .
    qed
  qed
qed

lemma kebab_getUserID: "camelToKebabCase ''getUserID'' = ''get-user-id''"
  by code_simp

lemma kebab_HTTPServer: "camelToKebabCase ''HTTPServer'' = ''http-server''"
  by code_simp

lemma kebab_v2Parser: "camelToKebabCase ''v2Parser'' = ''v2-parser''"
  by code_simp

lemma passes_getUSERid: "replaceAcronym (replaceLowerUpper ''getUSERid'') = ''get-USE-Rid''"
  by code_simp

text \<open>
  C4, as the code has it. The normalizer is two insertion passes and then lower-casing,
  and on every string each pass is an insertion of dashes between neighbours. The first
  pass puts a dash between every small letter or digit and the capital that follows it.
  The second pass puts a dash between two neighbouring capitals exactly when a small
  letter follows the second of them: at a run of capitals that a small letter follows,
  the dash goes before the last capital of the run (a run of one capital gets none), and
  the match of the regular expression is found by the length of the run. So
  \<open>getUSERid\<close> becomes \<open>get-USE-Rid\<close> before lower-casing and \<open>get-use-rid\<close> after it,
  \<open>getUserID\<close> becomes \<open>get-user-id\<close>, \<open>HTTPServer\<close> becomes \<open>http-server\<close> and
  \<open>v2Parser\<close> becomes \<open>v2-parser\<close>.
\<close>

theorem camelToKebabCase_two_passes:
  "camelToKebabCase str = toLowerCase (replaceAcronym (replaceLowerUpper str))
   \<and> replaceLowerUpper str = dashBetween (\<lambda>a b. (isLower a \<or> isDigit a) \<and> isUpper b) str
   \<and> replaceAcronym str = dashBeforePair str
   \<and> camelToKebabCase str =
         toLowerCase (dashBeforePair
           (dashBetween (\<lambda>a b. (isLower a \<or> isDigit a) \<and> isUpper b) str))
   \<and> acronymMatch str =
         (let k = length (takeWhile isUpper str)
          in if 2 \<le> k \<and> k < length str \<and> isLower (str ! k) then Some (k - 1) else None)
   \<and> replaceAcronym (replaceLowerUpper ''getUSERid'') = ''get-USE-Rid''
   \<and> camelToKebabCase ''getUserID'' = ''get-user-id''
   \<and> camelToKebabCase ''HTTPServer'' = ''http-server''
   \<and> camelToKebabCase ''v2Parser'' = ''v2-parser''"
proof -
  have "camelToKebabCase str =
          toLowerCase (dashBeforePair
            (dashBetween (\<lambda>a b. (isLower a \<or> isDigit a) \<and> isUpper b) str))"
    by (simp only: camelToKebabCase_def replaceAcronym_dashBeforePair
          replaceLowerUpper_dashBetween)
  then show ?thesis
    using replaceLowerUpper_dashBetween[of str] replaceAcronym_dashBeforePair[of str]
      acronymMatch_eq[of str]
      passes_getUSERid kebab_getUserID kebab_HTTPServer kebab_v2Parser
    by (simp only: camelToKebabCase_def simp_thms)
qed

theorem camelToKebabCase_two_passes_witness:
  "camelToKebabCase ''HTTPServer'' = toLowerCase (replaceAcronym (replaceLowerUpper ''HTTPServer''))
   \<and> replaceAcronym ''HTTPServer'' = ''HTTP-Server''
   \<and> acronymMatch ''HTTPServer'' = Some 4
   \<and> replaceAcronym (replaceLowerUpper ''getUSERid'') = ''get-USE-Rid''"
proof -
  have k: "length (takeWhile isUpper ''HTTPServer'') = 5" by code_simp
  have l: "isLower (''HTTPServer'' ! 5)" by code_simp
  have d: "dashBeforePair ''HTTPServer'' = ''HTTP-Server''" by code_simp
  have a: "acronymMatch ''HTTPServer'' = Some 4"
    using conjunct1[OF conjunct2[OF conjunct2[OF conjunct2[OF conjunct2[OF
            camelToKebabCase_two_passes[of "''HTTPServer''"]]]]]]
    unfolding k using l by (simp add: Let_def)
  have r: "replaceAcronym ''HTTPServer'' = dashBeforePair ''HTTPServer''"
    using conjunct1[OF conjunct2[OF conjunct2[OF
            camelToKebabCase_two_passes[of "''HTTPServer''"]]]] .
  show ?thesis
    using conjunct1[OF camelToKebabCase_two_passes[of "''HTTPServer''"]] a r passes_getUSERid
    by (simp only: d simp_thms)
qed

text \<open>
  C4 as stated fails at its own example: the two passes do not turn \<open>getUSERid\<close> into
  \<open>get-USER-id\<close>.
\<close>

theorem getUSERid_counterexample:
  "replaceAcronym (replaceLowerUpper ''getUSERid'') \<noteq> ''get-USER-id''"
  by (subst passes_getUSERid) simp

section \<open>Properties of the pipeline\<close>

declare execute.simps [simp del]

lemma execute_end:
  "length ms \<le> i \<Longrightarrow> execute s ms i = (Reject (JsError exhaustedMessage), s)"
  by (subst execute.simps) simp

lemma execute_step:
  "i < length ms \<Longrightarrow> execute s ms i = (ms ! i) s (\<lambda>s'. execute s' ms (Suc i))"
  by (subst execute.simps) simp

text \<open>The index walks the list: the pipeline runs the first stage with the rest as \<open>next\<close>.\<close>

lemma execute_Cons: "execute s (m # ms) (Suc i) = execute s ms i"
proof (induction "length ms - i" arbitrary: s i)
  case 0
  then show ?case by (simp add: execute_end)
next
  case (Suc n)
  then have i: "i < length ms" by simp
  have "(\<lambda>s'. execute s' (m # ms) (Suc (Suc i))) = (\<lambda>s'. execute s' ms (Suc i))"
  proof
    fix s'
    show "execute s' (m # ms) (Suc (Suc i)) = execute s' ms (Suc i)"
      using Suc.hyps(1)[of "Suc i" s'] Suc.hyps(2) by simp
  qed
  then show ?case using i by (simp add: execute_step)
qed

lemma pipeline_Nil: "pipeline s [] = (Reject (JsError exhaustedMessage), s)"
  by (simp add: pipeline_def execute_end)

lemma pipeline_Cons: "pipeline s (m # ms) = m s (\<lambda>s'. pipeline s' ms)"
  by (simp add: pipeline_def execute_step execute_Cons)

lemma returnsNext_around: "returnsNext (around pre post)"
  unfolding returnsNext_def
proof (intro allI)
  fix state :: 'a and "next" :: "('a, 'b) continuation"
  have "fst (around pre post state next) = fst (next (pre state))"
    by (simp add: around_def split: prod.splits)
  then show "\<exists>state'. fst (around pre post state next) = fst (next state')" ..
qed

lemma pipeline_exhausted:
  "list_all returnsNext ms \<Longrightarrow> fst (pipeline s ms) = Reject (JsError exhaustedMessage)"
proof (induction ms arbitrary: s)
  case Nil
  then show ?case by (simp add: pipeline_Nil)
next
  case (Cons m ms)
  then have "returnsNext m" and rest: "list_all returnsNext ms" by simp_all
  then obtain s' where "fst (m s (\<lambda>s'. pipeline s' ms)) = fst (pipeline s' ms)"
    unfolding returnsNext_def by blast
  then show ?case using Cons.IH[OF rest, of s'] by (simp add: pipeline_Cons)
qed

lemma pipelineShift_exhausted:
  "list_all returnsNext ms \<Longrightarrow> fst (pipelineShift s ms) = Reject (JsError ''Middleware not found!'')"
proof (induction ms arbitrary: s)
  case Nil
  then show ?case by simp
next
  case (Cons m ms)
  then have "returnsNext m" and rest: "list_all returnsNext ms" by simp_all
  then obtain s' where "fst (m s (\<lambda>s'. pipelineShift s' ms)) = fst (pipelineShift s' ms)"
    unfolding returnsNext_def by blast
  then show ?case using Cons.IH[OF rest, of s'] by simp
qed

text \<open>
  C8, as the code has it. When every middleware of the chain calls \<open>next()\<close> and
  returns its value, both pipelines reject and neither resolves, whatever the state. The
  first one rejects with the message that tells to let the last stage return without
  calling \<open>next\<close>; the second one rejects with the message \<open>Middleware not found!\<close>.
\<close>

theorem pipelines_reject_when_exhausted:
  "list_all returnsNext ms \<Longrightarrow>
     fst (pipeline s ms) = Reject (JsError exhaustedMessage)
     \<and> fst (pipelineShift s ms) = Reject (JsError ''Middleware not found!'')
     \<and> (\<forall>v. fst (pipeline s ms) \<noteq> Resolve v)
     \<and> (\<forall>v. fst (pipelineShift s ms) \<noteq> Resolve v)"
  by (simp add: pipeline_exhausted pipelineShift_exhausted)

theorem pipelines_reject_when_exhausted_witness:
  "list_all returnsNext [around Suc id, around id Suc :: (nat, jsval) middleware]
   \<and> fst (pipeline (0::nat) [around Suc id, around id Suc :: (nat, jsval) middleware])
       = Reject (JsError exhaustedMessage)
   \<and> fst (pipelineShift (0::nat) [around Suc id, around id Suc :: (nat, jsval) middleware])
       = Reject (JsError ''Middleware not found!'')"
proof -
  have h: "list_all returnsNext [around Suc id, around id Suc :: (nat, jsval) middleware]"
    by (simp add: returnsNext_around)
  show ?thesis
    using h pipelines_reject_when_exhausted[OF h, of 0] by simp
qed

text \<open>
  C8 as stated fails for the second pipeline: on a chain of middlewares that call
  \<open>next()\<close> and return its value it does not reject with the message of the first.
\<close>

theorem pipelineShift_message_counterexample:
  "list_all returnsNext [around Suc id, around id Suc :: (nat, jsval) middleware]
   \<and> fst (pipelineShift (0::nat) [around Suc id, around id Suc :: (nat, jsval) middleware])
       \<noteq> Reject (JsError exhaustedMessage)"
proof -
  have h: "list_all returnsNext [around Suc id, around id Suc :: (nat, jsval) middleware]"
    by (simp add: returnsNext_around)
  have "fst (pipelineShift (0::nat) [around Suc id, around id Suc :: (nat, jsval) middleware])
          = Reject (JsError ''Middleware not found!'')"
    by (simp add: around_def)
  then show ?thesis using h by (simp add: exhaustedMessage_def)
qed

section \<open>Properties of the server context\<close>

lemma statusApply_valid: "writesValid op \<Longrightarrow> validStatus (statusGet (statusApply op ctx))"
  by (cases op) (simp_all add: writesValid_def validStatus_def statusGet_def)

lemma statusRun_valid:
  "validStatus (statusGet ctx) \<Longrightarrow> list_all writesValid ops
     \<Longrightarrow> validStatus (statusGet (statusRun ops ctx))"
  unfolding statusRun_def
proof (induction ops arbitrary: ctx)
  case Nil
  then show ?case by simp
next
  case (Cons op ops)
  then have "validStatus (statusGet (statusApply op ctx))" by (simp add: statusApply_valid)
  then show ?case using Cons.IH Cons.prems(2) by simp
qed

text \<open>
  C9, as the code has it. A new context has status 200. \<open>status.set\<close> stores its
  argument as it is, without a check. Each named shortcut stores its canonical code. So
  the stored status is a valid HTTP status code after any sequence of operations in
  which every \<open>status.set\<close> is given a valid code.
\<close>

theorem status_operations:
  "statusGet (newServerContext argsValue ev) = 200
   \<and> statusGet (statusApply (StatusSet code) ctx) = code
   \<and> statusGet (statusApply Continue ctx) = 100
   \<and> statusGet (statusApply SwitchingProtocols ctx) = 101
   \<and> statusGet (statusApply Processing ctx) = 102
   \<and> statusGet (statusApply Ok ctx) = 200
   \<and> statusGet (statusApply Created ctx) = 201
   \<and> statusGet (statusApply Accepted ctx) = 202
   \<and> statusGet (statusApply NoContent ctx) = 204
   \<and> statusGet (statusApply ResetContent ctx) = 205
   \<and> statusGet (statusApply PartialContent ctx) = 206
   \<and> statusGet (statusApply MultipleChoices ctx) = 300
   \<and> statusGet (statusApply MovedPermanently ctx) = 301
   \<and> statusGet (statusApply Found ctx) = 302
   \<and> statusGet (statusApply SeeOther ctx) = 303
   \<and> statusGet (statusApply NotModified ctx) = 304
   \<and> statusGet (statusApply TemporaryRedirect ctx) = 307
   \<and> statusGet (statusApply PermanentRedirect ctx) = 308
   \<and> statusGet (statusApply BadRequest ctx) = 400
   \<and> statusGet (statusApply Unauthorized ctx) = 401
   \<and> statusGet (statusApply PaymentRequired ctx) = 402
   \<and> statusGet (statusApply Forbidden ctx) = 403
   \<and> statusGet (statusApply NotFound ctx) = 404
   \<and> statusGet (statusApply MethodNotAllowed ctx) = 405
   \<and> statusGet (statusApply NotAcceptable ctx) = 406
   \<and> statusGet (statusApply Conflict ctx) = 409
   \<and> statusGet (statusApply Gone ctx) = 410
   \<and> statusGet (statusApply LengthRequired ctx) = 411
   \<and> statusGet (statusApply PreconditionFailed ctx) = 412
   \<and> statusGet (statusApply PayloadTooLarge ctx) = 413
   \<and> statusGet (statusApply UriTooLong ctx) = 414
   \<and> statusGet (statusApply BadContent ctx) = 415
   \<and> statusGet (statusApply RangeNotSatisfiable ctx) = 416
   \<and> statusGet (statusApply ExpectationFailed ctx) = 417
   \<and> statusGet (statusApply TooManyRequests ctx) = 429
   \<and> statusGet (statusApply ServerError ctx) = 500
   \<and> statusGet (statusApply NotImplemented ctx) = 501
   \<and> statusGet (statusApply BadGateway ctx) = 502
   \<and> statusGet (statusApply ServiceUnavailable ctx) = 503
   \<and> statusGet (statusApply GatewayTimeout ctx) = 504
   \<and> statusGet (statusApply HttpVersionNotSupported ctx) = 505
   \<and> (validStatus (statusGet ctx) \<and> list_all writesValid ops
        \<longrightarrow> validStatus (statusGet (statusRun ops ctx)))"
proof -
  have run: "validStatus (statusGet ctx) \<and> list_all writesValid ops
               \<longrightarrow> validStatus (statusGet (statusRun ops ctx))"
    by (simp add: statusRun_valid)
  show ?thesis
    by (intro conjI run) (simp_all add: statusGet_def newServerContext_def)
qed

theorem status_operations_witness:
  "validStatus (statusGet (newServerContext (VObj []) plainEvent))
   \<and> list_all writesValid [NotFound, StatusSet 418, Created]
   \<and> validStatus (statusGet (statusRun [NotFound, StatusSet 418, Created]
                                (newServerContext (VObj []) plainEvent)))
   \<and> statusGet (statusApply (StatusSet 418) (newServerContext (VObj []) plainEvent)) = 418"
proof -
  have v: "validStatus (statusGet (newServerContext (VObj []) plainEvent))"
    by (simp add: validStatus_def statusGet_def newServerContext_def)
  have w: "list_all writesValid [NotFound, StatusSet 418, Created]"
    by (simp add: writesValid_def validStatus_def)
  show ?thesis
    using v w status_operations[of "VObj []" plainEvent 418 "newServerContext (VObj []) plainEvent"
                                   "[NotFound, StatusSet 418, Created]"]
    by simp
qed

text \<open>
  C9 as stated fails: after \<open>status.set(1000)\<close> the stored status is 1000, which is not
  an HTTP status code.
\<close>

theorem status_set_counterexample:
  "\<not> validStatus (statusGet (statusRun [Ok, StatusSet 1000] (newServerContext (VObj []) plainEvent)))"
  by (simp add: validStatus_def statusGet_def statusRun_def)

section \<open>Properties of the client's middleware chain\<close>

declare collectLoop.simps [simp del]

lemma registered_setterSet:
  "registered (setterSet pathSegments prop v mm) key =
     (if key = assignmentKey (pathSegments, prop, v)
      then registered mm key @ assigned (pathSegments, prop, v)
      else registered mm key)"
  by (simp add: registered_def setterSet_def assignmentKey_def assigned_def routeKey_def Let_def)

lemma registered_configure:
  "registered (configure assignments mm) key =
     registered mm key @ concat (map assigned (filter (\<lambda>a. assignmentKey a = key) assignments))"
  unfolding configure_def
proof (induction assignments arbitrary: mm)
  case Nil
  then show ?case by simp
next
  case (Cons a rest)
  obtain q pr v where a: "a = (q, pr, v)" by (cases a)
  show ?case
    using Cons.IH[of "setterSet q pr v mm"]
    by (simp add: a registered_setterSet)
qed

lemma collectLoop_eq:
  "collectLoop mm p i acc =
     acc @ concat (map (\<lambda>j. registered mm (routeKey (take j p))) [i ..< Suc (length p)])"
proof (induction mm p i acc rule: collectLoop.induct)
  case (1 mm p i acc)
  show ?case
  proof (cases "i \<le> length p")
    case True
    then have u: "[i ..< Suc (length p)] = i # [Suc i ..< Suc (length p)]"
      by (simp add: upt_conv_Cons)
    have pushed: "(case mm (join ''.'' (map camelToKebabCase (take i p))) of
                     Some l \<Rightarrow> acc @ l | None \<Rightarrow> acc)
                  = acc @ registered mm (routeKey (take i p))"
      by (simp add: registered_def routeKey_def split: option.splits)
    have "collectLoop mm p i acc =
            collectLoop mm p (Suc i) (acc @ registered mm (routeKey (take i p)))"
      using True by (subst collectLoop.simps) (simp add: pushed)
    also have "\<dots> = (acc @ registered mm (routeKey (take i p)))
                 @ concat (map (\<lambda>j. registered mm (routeKey (take j p))) [Suc i ..< Suc (length p)])"
      using "1.IH"[OF True] by (simp add: pushed)
    finally show ?thesis unfolding u by (simp del: upt_Suc)
  next
    case False
    then show ?thesis by (subst collectLoop.simps) simp
  qed
qed

lemma collectMiddlewares_chain:
  "collectMiddlewares mm p @ [terminal] = chainOf mm p terminal"
  by (simp add: collectMiddlewares_def collectLoop_eq chainOf_def registered_def)

lemma newClientContext_path:
  "newClientContext p argsRecord rpc options hp = (ctx, hp1) \<Longrightarrow> path ctx = p"
  by (auto simp: newClientContext_def Let_def split: prod.splits option.splits)

text \<open>
  C5. The call runs the pipeline on the chain made of the list under the key \<open>""\<close>, then
  the lists under the kebab dot-joined keys of the prefixes of the path by growing
  length, then the transport stage; the pipeline runs the first stage of a chain with the
  rest of the chain as its \<open>next\<close>. After any sequence of assignments through the
  configuration proxy, the list under a key holds the middlewares of the assignments to
  that key, in the order of the assignments.
\<close>

theorem client_chain_order:
  "rpcCall P net baseUrl mm p rpc isContextRequested argsRecord options hp =
     (case newClientContext p argsRecord rpc options hp of (ctx, hp1) \<Rightarrow>
        (case pipeline (ctx, hp1) (chainOf mm p (transportStage P net baseUrl)) of
           (Reject e, (ctx', hp')) \<Rightarrow> (Reject e, hp')
         | (Resolve res, (ctx', hp')) \<Rightarrow>
             (Resolve (if isContextRequested then ReturnedContext ctx'
                       else ReturnedResult (result ctx')), hp')))
   \<and> chainOf mm' p' terminal =
       registered mm' []
       @ concat (map (\<lambda>i. registered mm' (routeKey (take i p'))) [1 ..< Suc (length p')])
       @ [terminal]
   \<and> pipeline s (m # ms) = m s (\<lambda>s'. pipeline s' ms)
   \<and> registered (configure assignments Map.empty) key =
       concat (map assigned (filter (\<lambda>a. assignmentKey a = key) assignments))"
proof -
  have "rpcCall P net baseUrl mm p rpc isContextRequested argsRecord options hp =
     (case newClientContext p argsRecord rpc options hp of (ctx, hp1) \<Rightarrow>
        (case pipeline (ctx, hp1) (chainOf mm p (transportStage P net baseUrl)) of
           (Reject e, (ctx', hp')) \<Rightarrow> (Reject e, hp')
         | (Resolve res, (ctx', hp')) \<Rightarrow>
             (Resolve (if isContextRequested then ReturnedContext ctx'
                       else ReturnedResult (result ctx')), hp')))"
    unfolding rpcCall_def
    by (auto simp: Let_def collectMiddlewares_chain dest: newClientContext_path split: prod.splits)
  moreover have "registered (configure assignments Map.empty) key =
       concat (map assigned (filter (\<lambda>a. assignmentKey a = key) assignments))"
    by (simp add: registered_configure) (simp add: registered_def)
  ultimately show ?thesis
    by (simp add: pipeline_Cons) (simp add: chainOf_def)
qed

theorem client_chain_order_witness:
  "chainOf (configure [([], ''$'', Single 1), ([''posts''], ''$'', Single 2),
                       ([''posts''], ''create'', Array [3, 4]), ([], ''$'', Single (5::nat))]
              Map.empty)
     [''posts'', ''create''] 0
   = [1, 5, 2, 3, 4, 0]"
proof -
  let ?as = "[([], ''$'', Single 1), ([''posts''], ''$'', Single 2),
              ([''posts''], ''create'', Array [3, 4]), ([], ''$'', Single (5::nat))]"
  have k0: "routeKey [] = []" by code_simp
  have k1: "routeKey [''posts''] = ''posts''" by code_simp
  have k2: "routeKey [''posts'', ''create''] = ''posts.create''" by code_simp
  have r: "registered (configure ?as Map.empty) key =
             concat (map assigned (filter (\<lambda>a. assignmentKey a = key) ?as))" for key
    by (rule conjunct2[OF conjunct2[OF conjunct2[OF client_chain_order]]])
  have c: "chainOf (configure ?as Map.empty) [''posts'', ''create''] 0 =
             registered (configure ?as Map.empty) []
             @ concat (map (\<lambda>i. registered (configure ?as Map.empty)
                                   (routeKey (take i [''posts'', ''create''])))
                         [1 ..< Suc (length [''posts'', ''create''])])
             @ [0]"
    by (rule conjunct1[OF conjunct2[OF client_chain_order]])
  have u: "[1 ..< Suc (length [''posts'', ''create''])] = [1, 2]" by code_simp
  show ?thesis
    unfolding c r u by (simp add: k0 k1 k2 assignmentKey_def assigned_def)
qed

section \<open>Properties of the upload scan\<close>

lemma mapSet_fresh: "k \<notin> fst ` set m \<Longrightarrow> mapSet k v m = m @ [(k, v)]"
  by (induction m) auto

lemma mapDelete_fresh: "k \<notin> fst ` set m \<Longrightarrow> mapDelete k m = m"
  by (induction m) (auto simp: mapDelete_def)

lemma mapDelete_append: "mapDelete k (m @ n) = mapDelete k m @ mapDelete k n"
  by (simp add: mapDelete_def)

lemma mapDelete_Cons:
  "mapDelete k ((k', v) # m) = (if k' = k then mapDelete k m else (k', v) # mapDelete k m)"
  by (simp add: mapDelete_def)

lemma mapSet_keys: "fst ` set (mapSet k v m) = insert k (fst ` set m)"
proof (induction m)
  case Nil
  then show ?case by simp
next
  case (Cons e m)
  obtain k' v' where e: "e = (k', v')" by (cases e)
  show ?case using Cons.IH by (cases "k' = k") (auto simp: e)
qed

lemma mapSet_distinct: "distinct (map fst m) \<Longrightarrow> distinct (map fst (mapSet k v m))"
proof (induction m)
  case Nil
  then show ?case by simp
next
  case (Cons e m)
  obtain k' v' where e: "e = (k', v')" by (cases e)
  show ?case
  proof (cases "k' = k")
    case True
    with Cons.prems e show ?thesis by simp
  next
    case False
    have "k' \<notin> fst ` set (mapSet k v m)"
      using Cons.prems False by (simp add: mapSet_keys e)
    with Cons e False show ?thesis by simp
  qed
qed

lemma foldl_mapSet_distinct:
  "distinct (map fst m) \<Longrightarrow> distinct (map fst (foldl (\<lambda>m (k, v). mapSet k v m) m entries))"
proof (induction entries arbitrary: m)
  case Nil
  then show ?case by simp
next
  case (Cons e entries)
  obtain k v where e: "e = (k, v)" by (cases e)
  show ?case using Cons.IH[of "mapSet k v m"] Cons.prems by (simp add: e mapSet_distinct)
qed

text \<open>The keys of a \<open>Map\<close> are distinct, so those of the arguments of a new context are.\<close>

lemma newMap_distinct: "distinct (map fst (newMap entries))"
  unfolding newMap_def by (rule foldl_mapSet_distinct) simp

lemma newClientContext_args_distinct:
  "newClientContext p argsRecord rpc options hp = (ctx, hp1) \<Longrightarrow> distinct (map fst (args ctx))"
  by (auto simp: newClientContext_def Let_def newMap_distinct split: prod.splits option.splits)

lemma extractUploads_loop:
  "distinct (map fst (done @ todo)) \<Longrightarrow>
   foldl (\<lambda>(uploads, remaining) (key, v).
            if isUpload v then (mapSet key v uploads, mapDelete key remaining)
            else (uploads, remaining))
     (filter (\<lambda>(k, v). isUpload v) done, filter (\<lambda>(k, v). \<not> isUpload v) done @ todo) todo
   = (filter (\<lambda>(k, v). isUpload v) (done @ todo), filter (\<lambda>(k, v). \<not> isUpload v) (done @ todo))"
proof (induction todo arbitrary: "done")
  case Nil
  then show ?case by simp
next
  case (Cons e todo)
  obtain k v where e: "e = (k, v)" by (cases e)
  from Cons.prems have d: "distinct (map fst ((done @ [e]) @ todo))" by simp
  from Cons.prems have fresh: "k \<notin> fst ` set done" "k \<notin> fst ` set todo"
    by (auto simp: e)
  show ?case
  proof (cases "isUpload v")
    case True
    have "k \<notin> fst ` set (filter (\<lambda>(k, v). isUpload v) done)" using fresh(1) by auto
    then have s: "mapSet k v (filter (\<lambda>(k, v). isUpload v) done)
                    = filter (\<lambda>(k, v). isUpload v) (done @ [e])"
      using True by (simp add: mapSet_fresh e)
    have "k \<notin> fst ` set (filter (\<lambda>(k, v). \<not> isUpload v) done)" using fresh(1) by auto
    then have r: "mapDelete k (filter (\<lambda>(k, v). \<not> isUpload v) done @ e # todo)
                    = filter (\<lambda>(k, v). \<not> isUpload v) (done @ [e]) @ todo"
      using True fresh(2)
      by (simp add: mapDelete_append mapDelete_Cons mapDelete_fresh e)
    show ?thesis using Cons.IH[OF d] True by (simp add: e s[unfolded e] r[unfolded e])
  next
    case False
    then show ?thesis using Cons.IH[OF d] by (simp add: e)
  qed
qed

lemma extractUploads_eq:
  "distinct (map fst m) \<Longrightarrow>
   extractUploads m = (filter (\<lambda>(k, v). isUpload v) m, filter (\<lambda>(k, v). \<not> isUpload v) m)"
  unfolding extractUploads_def using extractUploads_loop[of "[]" m] by simp

lemma map_of_filter_value:
  "distinct (map fst m) \<Longrightarrow> map_of m k = Some v \<Longrightarrow>
   map_of (filter (\<lambda>(k, v). Q v) m) k = (if Q v then Some v else None)"
proof (induction m)
  case Nil
  then show ?case by simp
next
  case (Cons e m)
  obtain k' v' where e: "e = (k', v')" by (cases e)
  show ?case
  proof (cases "k' = k")
    case True
    then have v: "v' = v" using Cons.prems(2) by (simp add: e)
    have "k \<notin> fst ` set m" using Cons.prems(1) True by (auto simp: e)
    then have "map_of (filter (\<lambda>(k, v). Q v) m) k = None"
      by (auto simp: map_of_eq_None_iff)
    then show ?thesis using True v by (simp add: e)
  next
    case False
    then show ?thesis using Cons by (simp add: e)
  qed
qed

lemma buildRequest_args:
  "rpcType ctx = Command \<Longrightarrow>
   args (fst (snd (buildRequest P baseUrl ctx hp))) = snd (extractUploads (args ctx))"
  by (simp add: buildRequest_def Let_def split: prod.splits option.splits)

text \<open>
  C7. In a command call, the transport moves the value of an argument out of \<open>args\<close>
  into the uploads map exactly when the value is a file handle or a list that is not
  empty and holds file handles only; every other value, a list with an element that is
  not a file and the empty list among them, stays in \<open>args\<close> under its name.
\<close>

theorem uploads_moved_iff:
  "rpcType ctx = Command \<Longrightarrow> distinct (map fst (args ctx)) \<Longrightarrow> mapGet key (args ctx) = Some v \<Longrightarrow>
     (isUpload v \<longleftrightarrow> (\<exists>f. v = VFile f) \<or> (\<exists>vs. v = VArr vs \<and> vs \<noteq> [] \<and> (\<forall>x \<in> set vs. \<exists>f. x = VFile f)))
     \<and> mapGet key (fst (extractUploads (args ctx))) = (if isUpload v then Some v else None)
     \<and> mapGet key (snd (extractUploads (args ctx))) = (if isUpload v then None else Some v)
     \<and> args (fst (snd (buildRequest P baseUrl ctx hp))) = snd (extractUploads (args ctx))"
proof -
  assume c: "rpcType ctx = Command" and d: "distinct (map fst (args ctx))"
    and g: "mapGet key (args ctx) = Some v"
  have isFile_iff: "isFile x \<longleftrightarrow> (\<exists>f. x = VFile f)" for x
    by (cases x) (simp_all add: isFile_def)
  have "isUpload v \<longleftrightarrow> (\<exists>f. v = VFile f) \<or> (\<exists>vs. v = VArr vs \<and> vs \<noteq> [] \<and> (\<forall>x \<in> set vs. \<exists>f. x = VFile f))"
    by (cases v) (simp_all add: isUpload_def list_all_iff isFile_iff)
  moreover have "mapGet key (fst (extractUploads (args ctx))) = (if isUpload v then Some v else None)"
    using map_of_filter_value[OF d, of key v isUpload] g
    by (simp add: extractUploads_eq[OF d] mapGet_def)
  moreover have "mapGet key (snd (extractUploads (args ctx))) = (if isUpload v then None else Some v)"
    using map_of_filter_value[OF d, of key v "\<lambda>v. \<not> isUpload v"] g
    by (simp add: extractUploads_eq[OF d] mapGet_def)
  ultimately show ?thesis using buildRequest_args[OF c] by blast
qed

lemma uploadContext_args:
  "args uploadContext =
     [(''files[]'', VArr [VFile photo, VFile letter]), (''note'', VStr ''x''),
      (''mixed'', VArr [VFile photo, VStr ''a'']), (''none'', VArr []), (''doc'', VFile letter)]"
  by (simp add: uploadContext_def newClientContext_def newMap_def newHeaders_def
        noOptions_def emptyHeap_def Let_def)

lemma uploadContext_rpcType: "rpcType uploadContext = Command"
  by (simp add: uploadContext_def newClientContext_def newHeaders_def noOptions_def Let_def)

theorem uploads_moved_iff_witness:
  "rpcType uploadContext = Command
   \<and> distinct (map fst (args uploadContext))
   \<and> mapGet ''mixed'' (args uploadContext) = Some (VArr [VFile photo, VStr ''a''])
   \<and> mapGet ''mixed'' (fst (extractUploads (args uploadContext))) = None
   \<and> mapGet ''mixed'' (snd (extractUploads (args uploadContext)))
       = Some (VArr [VFile photo, VStr ''a''])
   \<and> extractUploads (args uploadContext)
       = ([(''files[]'', VArr [VFile photo, VFile letter]), (''doc'', VFile letter)],
          [(''note'', VStr ''x''), (''mixed'', VArr [VFile photo, VStr ''a'']), (''none'', VArr [])])"
proof -
  have d: "distinct (map fst (args uploadContext))"
    by (simp add: uploadContext_args)
  have g: "mapGet ''mixed'' (args uploadContext) = Some (VArr [VFile photo, VStr ''a''])"
    by (simp add: uploadContext_args mapGet_def)
  have n: "\<not> isUpload (VArr [VFile photo, VStr ''a''])"
    by (simp add: isUpload_def isFile_def)
  have e: "extractUploads (args uploadContext)
       = ([(''files[]'', VArr [VFile photo, VFile letter]), (''doc'', VFile letter)],
          [(''note'', VStr ''x''), (''mixed'', VArr [VFile photo, VStr ''a'']), (''none'', VArr [])])"
    by (simp add: uploadContext_args extractUploads_def isUpload_def isFile_def mapDelete_def)
  show ?thesis
    using uploads_moved_iff[OF uploadContext_rpcType d g] d g n e uploadContext_rpcType
    by simp
qed

section \<open>Properties of the request headers\<close>

lemma headerName_accept: "headerName ''accept'' = ''accept''"
  by code_simp

lemma headerName_Accept: "headerName ''Accept'' = ''accept''"
  by code_simp

lemma headerName_ContentType: "headerName ''Content-Type'' = ''content-type''"
  by code_simp

lemma headerName_XTrace: "headerName ''X-Trace'' = ''x-trace''"
  by code_simp

lemma setHeaderAt_objects:
  "objects hp ref = Some h \<Longrightarrow>
   objects (setHeaderAt ref name v hp) = (objects hp)(ref \<mapsto> headersSet name v h)"
  by (simp add: setHeaderAt_def)

lemma setHeaderAt_nextFree: "nextFree (setHeaderAt ref name v hp) = nextFree hp"
  by (simp add: setHeaderAt_def)

text \<open>Reading a header after a write of another one into the same object.\<close>

lemma headersGet_setHeaderAt_other:
  "headerName name \<noteq> headerName name' \<Longrightarrow>
   headersGet name (headersAt (setHeaderAt ref name' v hp) ref) = headersGet name (headersAt hp ref)"
  by (simp add: headersAt_def setHeaderAt_def headersGet_def headersSet_def split: option.splits)

text \<open>With a headers object in the options, the constructor allocates nothing.\<close>

lemma newClientContext_given:
  "optHeaders options = Some a \<Longrightarrow>
   newClientContext p argsRecord rpc options hp =
     (\<lparr>path = p,
       args = newMap (case argsRecord of Some entries \<Rightarrow> entries | None \<Rightarrow> []),
       rpcType = rpc, headersRef = a, abortSignal = optAbortSignal options,
       onProgress = optOnProgress options, result = None, clientResponse = None\<rparr>,
      setHeaderAt a ''accept'' ''application/msgpack'' hp)"
  by (simp add: newClientContext_def)

text \<open>Without one, it allocates a new object and writes into that.\<close>

lemma newClientContext_fresh:
  "optHeaders options = None \<Longrightarrow> newClientContext p argsRecord rpc options hp = (ctx, hp1) \<Longrightarrow>
   headersRef ctx = nextFree hp
   \<and> objects hp1 (nextFree hp) = Some (headersSet ''accept'' ''application/msgpack'' Map.empty)"
  by (auto simp: newClientContext_def newHeaders_def setHeaderAt_def)

text \<open>
  The heap after \<open>call\<close> has built its request: \<open>Content-Type\<close> is written for a command
  without uploads, once the URL has been made.
\<close>

lemma buildRequest_heap:
  "snd (snd (buildRequest P baseUrl ctx hp)) =
     (if rpcType ctx = Command \<and> fst (extractUploads (args ctx)) = []
         \<and> newURL P (baseUrl @ ''/'' @ routeKey (path ctx)) (windowOrigin P) \<noteq> None
      then setHeaderAt (headersRef ctx) ''Content-Type'' ''application/msgpack'' hp
      else hp)"
  by (cases "rpcType ctx")
     (simp_all add: buildRequest_def Let_def routeKey_def split: prod.splits option.splits)

lemma buildRequest_outcome:
  "fst (buildRequest P baseUrl ctx hp) = Reject e \<Longrightarrow>
   newURL P (baseUrl @ ''/'' @ routeKey (path ctx)) (windowOrigin P) = None"
  by (simp add: buildRequest_def Let_def routeKey_def split: prod.splits option.splits)

lemma buildRequest_headers:
  "buildRequest P baseUrl ctx hp = (Resolve req, c, h) \<Longrightarrow>
   requestHeaders req = headersAt h (headersRef ctx)"
  by (auto simp: buildRequest_def Let_def split: prod.splits option.splits)

lemma buildRequest_others:
  assumes "buildRequest P baseUrl ctx hp = (Resolve req, c, h)"
    and "headerName name \<noteq> ''content-type''"
  shows "headersGet name (requestHeaders req) = headersGet name (headersAt hp (headersRef ctx))"
proof -
  have "h = snd (snd (buildRequest P baseUrl ctx hp))" using assms(1) by simp
  then show ?thesis
    using assms(2)
    by (simp add: buildRequest_headers[OF assms(1)] buildRequest_heap
          headersGet_setHeaderAt_other headerName_ContentType)
qed

text \<open>The request carries the \<open>Accept\<close> that the headers object holds when \<open>call\<close> runs.\<close>

lemma buildRequest_accept:
  "buildRequest P baseUrl ctx hp = (Resolve req, c, h) \<Longrightarrow>
   headersGet ''Accept'' (requestHeaders req) = sentAccept (ctx, hp)"
  by (simp add: buildRequest_others headerName_Accept sentAccept_def)

lemma call_heap:
  "snd (snd (call P net baseUrl (ctx, hp))) = snd (snd (buildRequest P baseUrl ctx hp))"
  by (simp add: call_def split: prod.splits outcome.splits)

lemma concat_map_Nil: "concat (map (\<lambda>j. []) xs) = []"
  by (induction xs) simp_all

lemma collectMiddlewares_empty: "collectMiddlewares Map.empty p = []"
  by (simp add: collectMiddlewares_def collectLoop_eq registered_def concat_map_Nil
        del: upt_Suc)

lemma transportStage_heap:
  "snd (snd (transportStage P net baseUrl state next)) = snd (snd (call P net baseUrl state))"
  by (simp add: transportStage_def split: prod.splits outcome.splits)

lemma rpcCall_no_middleware_heap:
  assumes "newClientContext p argsRecord rpc options hp = (ctx, hp1)"
  shows "snd (rpcCall P net baseUrl Map.empty p rpc isContextRequested argsRecord options hp)
           = snd (snd (call P net baseUrl (ctx, hp1)))"
proof -
  let ?run = "pipeline (ctx, hp1) [transportStage P net baseUrl]"
  have "snd (rpcCall P net baseUrl Map.empty p rpc isContextRequested argsRecord options hp)
          = snd (snd ?run)"
    by (simp add: rpcCall_def assms collectMiddlewares_empty Let_def
          split: prod.splits outcome.splits)
  also have "\<dots> = snd (snd (call P net baseUrl (ctx, hp1)))"
    by (simp add: pipeline_Cons transportStage_heap)
  finally show ?thesis .
qed

text \<open>
  Two networks that agree on the requests with a given \<open>Accept\<close> give the same \<open>call\<close>
  on a state whose headers hold that value.
\<close>

lemma call_cong:
  assumes "sentAccept state = Some v"
    and "\<And>viaXhr req. headersGet ''Accept'' (requestHeaders req) = Some v
            \<Longrightarrow> net viaXhr req = net' viaXhr req"
  shows "call P net baseUrl state = call P net' baseUrl state"
proof -
  obtain ctx hp where s: "state = (ctx, hp)" by (cases state)
  obtain r c h where b: "buildRequest P baseUrl ctx hp = (r, c, h)"
    by (cases "buildRequest P baseUrl ctx hp")
  show ?thesis
  proof (cases r)
    case (Reject e)
    then show ?thesis by (simp add: call_def s b)
  next
    case (Resolve req)
    have "headersGet ''Accept'' (requestHeaders req) = Some v"
      using buildRequest_accept[OF b[unfolded Resolve]] assms(1) s by simp
    then have "net (onProgress c) req = net' (onProgress c) req" by (rule assms(2))
    then show ?thesis by (simp add: call_def s b Resolve)
  qed
qed

lemma transportStage_cong:
  assumes "sentAccept state = Some v"
    and "\<And>viaXhr req. headersGet ''Accept'' (requestHeaders req) = Some v
            \<Longrightarrow> net viaXhr req = net' viaXhr req"
  shows "transportStage P net baseUrl state next = transportStage P net' baseUrl state next'"
  by (simp add: transportStage_def call_cong[OF assms])

text \<open>Along a chain of middlewares that leave \<open>Accept\<close> alone, the same holds of the run.\<close>

lemma pipeline_cong:
  assumes "\<And>viaXhr req. headersGet ''Accept'' (requestHeaders req) = Some v
            \<Longrightarrow> net viaXhr req = net' viaXhr req"
  shows "list_all keepsAccept ms \<Longrightarrow> sentAccept state = Some v \<Longrightarrow>
         pipeline state (ms @ [transportStage P net baseUrl])
           = pipeline state (ms @ [transportStage P net' baseUrl])"
proof (induction ms arbitrary: state)
  case Nil
  show ?case
    unfolding append_Nil pipeline_Cons by (rule transportStage_cong[OF Nil(2) assms])
next
  case (Cons m ms)
  from Cons.prems(1) have k: "keepsAccept m" and rest: "list_all keepsAccept ms" by simp_all
  note k' = k[unfolded keepsAccept_def, rule_format]
  have eq: "pipeline state' (ms @ [transportStage P net baseUrl])
              = pipeline state' (ms @ [transportStage P net' baseUrl])"
    if "sentAccept state' = sentAccept state" for state'
  proof -
    from that have "sentAccept state' = Some v" by (simp only: Cons.prems(2))
    then show ?thesis by (rule Cons.IH[OF rest])
  qed
  have "m state (\<lambda>s'. pipeline s' (ms @ [transportStage P net baseUrl]))
          = m state (\<lambda>s'. pipeline s' (ms @ [transportStage P net' baseUrl]))"
    by (rule k') (rule eq)
  then show ?case by (simp only: append_Cons pipeline_Cons)
qed

lemma keepsAccept_around:
  assumes "\<And>state. sentAccept (pre state) = sentAccept state"
  shows "keepsAccept (around pre post)"
  unfolding keepsAccept_def
proof (intro allI impI)
  fix state :: "clientContext \<times> heap"
    and "next" next' :: "(clientContext \<times> heap, jsval) continuation"
  assume "\<forall>state'. sentAccept state' = sentAccept state \<longrightarrow> next state' = next' state'"
  then have "next (pre state) = next' (pre state)" using assms[of state] by blast
  then show "around pre post state next = around pre post state next'"
    by (simp add: around_def)
qed

lemma keepsAccept_traceHeader: "keepsAccept traceHeader"
  unfolding traceHeader_def
  by (rule keepsAccept_around)
     (simp add: sentAccept_def headersGet_setHeaderAt_other headerName_Accept headerName_XTrace
        split: prod.splits)

text \<open>What the constructor leaves in the headers object of the context.\<close>

lemma newClientContext_headers:
  assumes "optHeaders options = None \<or> (\<exists>a h. optHeaders options = Some a \<and> objects hp a = Some h)"
    and "newClientContext p argsRecord rpc options hp = (ctx, hp1)"
  shows "objects hp1 (headersRef ctx) =
           Some (headersSet ''accept'' ''application/msgpack''
                   (case optHeaders options of Some a \<Rightarrow> headersAt hp a | None \<Rightarrow> Map.empty))"
proof (cases "optHeaders options")
  case None
  from newClientContext_fresh[OF None assms(2)] show ?thesis by (simp add: None)
next
  case (Some a)
  with assms(1) obtain h where h: "objects hp a = Some h" by auto
  from assms(2) have "headersRef ctx = a" "hp1 = setHeaderAt a ''accept'' ''application/msgpack'' hp"
    by (auto simp: newClientContext_given[OF Some])
  then show ?thesis by (simp add: Some setHeaderAt_objects[OF h] headersAt_def h)
qed

lemma newClientContext_accept:
  assumes "optHeaders options = None \<or> (\<exists>a h. optHeaders options = Some a \<and> objects hp a = Some h)"
    and "newClientContext p argsRecord rpc options hp = (ctx, hp1)"
  shows "sentAccept (ctx, hp1) = Some ''application/msgpack''"
  by (simp add: sentAccept_def headersAt_def newClientContext_headers[OF assms]
        headersGet_def headersSet_def headerName_Accept headerName_accept)

lemma newClientContext_onProgress:
  "newClientContext p argsRecord rpc options hp = (ctx, hp1) \<Longrightarrow>
   onProgress ctx = optOnProgress options"
  by (auto simp: newClientContext_def Let_def split: prod.splits)

text \<open>Without middlewares a call is its transport stage.\<close>

lemma rpcCall_no_middleware:
  assumes "newClientContext p argsRecord rpc options hp = (ctx, hp1)"
    and "collectMiddlewares mm p = []"
    and "buildRequest P baseUrl ctx hp1 = (Resolve req, c, h)"
  shows "fst (rpcCall P net baseUrl mm p rpc isContextRequested argsRecord options hp) =
           (case net (onProgress c) req of
              Reject e \<Rightarrow> Reject e
            | Resolve r \<Rightarrow>
                (case decodeResponse P r of
                   Reject e \<Rightarrow> Reject e
                 | Resolve res \<Rightarrow>
                     Resolve (if isContextRequested
                              then ReturnedContext (c\<lparr>clientResponse := Some r, result := Some res\<rparr>)
                              else ReturnedResult (Some res))))"
proof -
  have "path ctx = p" by (rule newClientContext_path[OF assms(1)])
  then show ?thesis
    by (simp add: rpcCall_def assms Let_def pipeline_Cons transportStage_def call_def
          split: prod.splits outcome.splits)
qed

text \<open>A call rejects when its chain does, and the transport stage when \<open>call\<close> does.\<close>

lemma rpcCall_Reject:
  assumes "newClientContext p argsRecord rpc options hp = (ctx, hp1)"
    and "fst (pipeline (ctx, hp1) (collectMiddlewares mm p @ [transportStage P net baseUrl]))
           = Reject e"
  shows "fst (rpcCall P net baseUrl mm p rpc isContextRequested argsRecord options hp) = Reject e"
proof -
  have pc: "path ctx = p" by (rule newClientContext_path[OF assms(1)])
  obtain r c h where
    run: "pipeline (ctx, hp1) (collectMiddlewares mm p @ [transportStage P net baseUrl]) = (r, c, h)"
    by (cases "pipeline (ctx, hp1) (collectMiddlewares mm p @ [transportStage P net baseUrl])")
  with assms(2) have "r = Reject e" by simp
  then show ?thesis by (simp add: rpcCall_def assms(1) Let_def pc run)
qed

lemma transportStage_Reject:
  assumes "fst (call P net baseUrl state) = Reject e"
  shows "fst (transportStage P net baseUrl state next) = Reject e"
proof -
  obtain r state' where c: "call P net baseUrl state = (r, state')"
    by (cases "call P net baseUrl state")
  with assms have "r = Reject e" by simp
  then show ?thesis by (simp add: transportStage_def c)
qed

text \<open>When the URL can be made, \<open>call\<close> has a request for the network.\<close>

lemma buildRequest_Resolve:
  assumes "newURL P (baseUrl @ ''/'' @ routeKey (path ctx)) (windowOrigin P) = Some href"
  obtains req c h where "buildRequest P baseUrl ctx hp = (Resolve req, c, h)"
proof -
  obtain r c h where b: "buildRequest P baseUrl ctx hp = (r, c, h)"
    by (cases "buildRequest P baseUrl ctx hp")
  show thesis
  proof (cases r)
    case (Resolve req)
    with b that show thesis by simp
  next
    case (Reject e)
    with b have "fst (buildRequest P baseUrl ctx hp) = Reject e" by simp
    from buildRequest_outcome[OF this] assms show thesis by simp
  qed
qed

text \<open>On the network that echoes \<open>Accept\<close>, a call that has a request fails with its value.\<close>

lemma call_echoAccept:
  assumes "newURL P (baseUrl @ ''/'' @ routeKey (path ctx)) (windowOrigin P) = Some href"
    and "sentAccept (ctx, hp) = Some v"
  shows "fst (call P echoAccept baseUrl (ctx, hp)) = Reject (JsError v)"
proof -
  from buildRequest_Resolve[OF assms(1)]
  obtain req c h where b: "buildRequest P baseUrl ctx hp = (Resolve req, c, h)" by blast
  have "headersGet ''Accept'' (requestHeaders req) = Some v"
    using buildRequest_accept[OF b] assms(2) by simp
  then show ?thesis by (simp add: call_def b echoAccept_def)
qed

lemma headersGet_setHeaderAt_same:
  "objects hp ref = Some h \<Longrightarrow> headerName name = headerName name' \<Longrightarrow>
   headersGet name (headersAt (setHeaderAt ref name' v hp) ref) = Some v"
  by (simp add: headersAt_def setHeaderAt_def headersGet_def headersSet_def)

lemma callerHeap_headers:
  "objects callerHeap 0 = Some (headersSet ''Accept'' ''application/json'' Map.empty)"
  by (simp add: callerHeap_def newHeaders_def emptyHeap_def setHeaderAt_def)

lemma callerOptions_headers: "optHeaders callerOptions = Some 0"
  by (simp add: callerOptions_def)

text \<open>The chain and the URL of the call \<open>posts.create\<close> that the examples make.\<close>

lemma routeKey_postsCreate: "routeKey [''posts'', ''create''] = ''posts.create''"
  by code_simp

lemma collectMiddlewares_global:
  "collectMiddlewares (Map.empty('''' \<mapsto> l)) [''posts'', ''create''] = l"
proof -
  have k1: "routeKey [''posts''] = ''posts''" by code_simp
  have u: "[1 ..< Suc (length [''posts'', ''create''])] = [1, 2]" by code_simp
  show ?thesis
    unfolding collectMiddlewares_def collectLoop_eq u
    by (simp add: registered_def k1 routeKey_postsCreate)
qed

lemma newURL_browser:
  "newURL samplePlatform (''/api'' @ ''/'' @ routeKey [''posts'', ''create''])
     (windowOrigin samplePlatform) = Some ''https://example.org/api/posts.create''"
  by code_simp

lemma newURL_node:
  "newURL nodePlatform (''/api'' @ ''/'' @ routeKey [''posts'', ''create''])
     (windowOrigin nodePlatform) = None"
  by code_simp

text \<open>A middleware that sets \<open>Accept\<close> gets its value sent.\<close>

lemma rpcCall_acceptJson:
  "fst (rpcCall samplePlatform echoAccept ''/api'' (Map.empty('''' \<mapsto> [acceptJson]))
          [''posts'', ''create''] Command False None callerOptions callerHeap)
     = Reject (JsError ''application/json'')"
proof -
  obtain ctx hp1 where
    n: "newClientContext [''posts'', ''create''] None Command callerOptions callerHeap = (ctx, hp1)"
    by (cases "newClientContext [''posts'', ''create''] None Command callerOptions callerHeap")
  then have c: "headersRef ctx = 0" "path ctx = [''posts'', ''create'']"
    and hp1: "hp1 = setHeaderAt 0 ''accept'' ''application/msgpack'' callerHeap"
    by (auto simp: newClientContext_given[OF callerOptions_headers])
  have at: "objects hp1 0 = Some (headersSet ''accept'' ''application/msgpack''
                                   (headersSet ''Accept'' ''application/json'' Map.empty))"
    by (simp add: hp1 setHeaderAt_objects[OF callerHeap_headers])
  have s: "sentAccept (ctx, setHeaderAt 0 ''Accept'' ''application/json'' hp1)
             = Some ''application/json''"
    by (simp add: sentAccept_def c headersGet_setHeaderAt_same[OF at])
  have "fst (call samplePlatform echoAccept ''/api''
               (ctx, setHeaderAt 0 ''Accept'' ''application/json'' hp1))
          = Reject (JsError ''application/json'')"
    by (rule call_echoAccept[OF _ s]) (simp only: c newURL_browser)
  then have "fst (pipeline (ctx, hp1) ([acceptJson] @ [transportStage samplePlatform echoAccept ''/api'']))
               = Reject (JsError ''application/json'')"
    by (simp add: pipeline_Cons acceptJson_def around_def c transportStage_Reject
          split: prod.splits)
  then show ?thesis
    by (intro rpcCall_Reject[OF n]) (simp only: collectMiddlewares_global)
qed

text \<open>
  C3, as the code has it. \<open>Accept: application/msgpack\<close> is not a default that the
  caller's headers can replace: the constructor writes it into the headers object of the
  context after it has taken the caller's object, over an entry for \<open>Accept\<close> that is
  there, and keeps the caller's other entries. The transport runs after the middlewares
  and sends the \<open>Accept\<close> that the headers object holds then. So a call with no
  middleware on its path hands to the network a request with \<open>Accept:
  application/msgpack\<close>, with the caller's other entries (\<open>Content-Type\<close> apart) as
  they were, and its outcome is what the network's answer to that request gives. With
  middlewares that leave the \<open>Accept\<close> entry as they find it, the call depends on the
  network only through its answers to requests with \<open>Accept: application/msgpack\<close>.
  A middleware that sets \<open>Accept\<close> changes what is sent: with one that sets
  \<open>application/json\<close>, that is the value the network gets.
\<close>

theorem accept_always_msgpack:
  "(optHeaders options = None \<or> (\<exists>a h. optHeaders options = Some a \<and> objects hp a = Some h)) \<Longrightarrow>
   newClientContext p argsRecord rpc options hp = (ctx, hp1) \<Longrightarrow>
     sentAccept (ctx, hp1) = Some ''application/msgpack''
     \<and> (\<forall>a h name. optHeaders options = Some a \<and> objects hp a = Some h
           \<and> headerName name \<noteq> ''accept''
         \<longrightarrow> headersGet name (headersAt hp1 (headersRef ctx)) = headersGet name h)
     \<and> (\<forall>ctx' hp' req c h. buildRequest P baseUrl ctx' hp' = (Resolve req, c, h)
         \<longrightarrow> headersGet ''Accept'' (requestHeaders req) = sentAccept (ctx', hp'))
     \<and> (collectMiddlewares mm p = [] \<longrightarrow>
          (\<forall>req c h. buildRequest P baseUrl ctx hp1 = (Resolve req, c, h) \<longrightarrow>
             headersGet ''Accept'' (requestHeaders req) = Some ''application/msgpack''
             \<and> (\<forall>a given name. optHeaders options = Some a \<and> objects hp a = Some given
                   \<and> headerName name \<noteq> ''accept'' \<and> headerName name \<noteq> ''content-type''
                 \<longrightarrow> headersGet name (requestHeaders req) = headersGet name given)
             \<and> fst (rpcCall P net baseUrl mm p rpc isContextRequested argsRecord options hp) =
                 (case net (onProgress c) req of
                    Reject e \<Rightarrow> Reject e
                  | Resolve r \<Rightarrow>
                      (case decodeResponse P r of
                         Reject e \<Rightarrow> Reject e
                       | Resolve res \<Rightarrow>
                           Resolve (if isContextRequested
                                    then ReturnedContext
                                           (c\<lparr>clientResponse := Some r, result := Some res\<rparr>)
                                    else ReturnedResult (Some res))))))
     \<and> (list_all keepsAccept (collectMiddlewares mm p)
          \<and> (\<forall>viaXhr req. headersGet ''Accept'' (requestHeaders req) = Some ''application/msgpack''
                \<longrightarrow> net viaXhr req = net' viaXhr req)
        \<longrightarrow> rpcCall P net baseUrl mm p rpc isContextRequested argsRecord options hp
            = rpcCall P net' baseUrl mm p rpc isContextRequested argsRecord options hp)
     \<and> fst (rpcCall samplePlatform echoAccept ''/api'' (Map.empty('''' \<mapsto> [acceptJson]))
              [''posts'', ''create''] Command False None callerOptions callerHeap)
         = Reject (JsError ''application/json'')"
proof -
  assume o: "optHeaders options = None \<or> (\<exists>a h. optHeaders options = Some a \<and> objects hp a = Some h)"
    and n: "newClientContext p argsRecord rpc options hp = (ctx, hp1)"
  have acc: "sentAccept (ctx, hp1) = Some ''application/msgpack''"
    by (rule newClientContext_accept[OF o n])
  have kept: "headersGet name (headersAt hp1 (headersRef ctx)) = headersGet name h"
    if "optHeaders options = Some a \<and> objects hp a = Some h \<and> headerName name \<noteq> ''accept''"
    for a h name
    using newClientContext_headers[OF o n] that
    by (simp add: headersAt_def headersGet_def headersSet_def headerName_accept)
  have c2: "\<forall>a h name. optHeaders options = Some a \<and> objects hp a = Some h
           \<and> headerName name \<noteq> ''accept''
         \<longrightarrow> headersGet name (headersAt hp1 (headersRef ctx)) = headersGet name h"
    by (intro allI impI) (rule kept)
  have c3: "\<forall>ctx' hp' req c h. buildRequest P baseUrl ctx' hp' = (Resolve req, c, h)
         \<longrightarrow> headersGet ''Accept'' (requestHeaders req) = sentAccept (ctx', hp')"
    by (intro allI impI) (rule buildRequest_accept)
  have c4: "collectMiddlewares mm p = [] \<longrightarrow>
          (\<forall>req c h. buildRequest P baseUrl ctx hp1 = (Resolve req, c, h) \<longrightarrow>
             headersGet ''Accept'' (requestHeaders req) = Some ''application/msgpack''
             \<and> (\<forall>a given name. optHeaders options = Some a \<and> objects hp a = Some given
                   \<and> headerName name \<noteq> ''accept'' \<and> headerName name \<noteq> ''content-type''
                 \<longrightarrow> headersGet name (requestHeaders req) = headersGet name given)
             \<and> fst (rpcCall P net baseUrl mm p rpc isContextRequested argsRecord options hp) =
                 (case net (onProgress c) req of
                    Reject e \<Rightarrow> Reject e
                  | Resolve r \<Rightarrow>
                      (case decodeResponse P r of
                         Reject e \<Rightarrow> Reject e
                       | Resolve res \<Rightarrow>
                           Resolve (if isContextRequested
                                    then ReturnedContext
                                           (c\<lparr>clientResponse := Some r, result := Some res\<rparr>)
                                    else ReturnedResult (Some res)))))"
  proof (intro impI allI conjI)
    fix req c h
    assume e: "collectMiddlewares mm p = []"
      and b: "buildRequest P baseUrl ctx hp1 = (Resolve req, c, h)"
    show "headersGet ''Accept'' (requestHeaders req) = Some ''application/msgpack''"
      using buildRequest_accept[OF b] acc by simp
    show "fst (rpcCall P net baseUrl mm p rpc isContextRequested argsRecord options hp) =
                 (case net (onProgress c) req of
                    Reject e \<Rightarrow> Reject e
                  | Resolve r \<Rightarrow>
                      (case decodeResponse P r of
                         Reject e \<Rightarrow> Reject e
                       | Resolve res \<Rightarrow>
                           Resolve (if isContextRequested
                                    then ReturnedContext
                                           (c\<lparr>clientResponse := Some r, result := Some res\<rparr>)
                                    else ReturnedResult (Some res))))"
      by (rule rpcCall_no_middleware[OF n e b])
    fix a given name
    assume g: "optHeaders options = Some a \<and> objects hp a = Some given
                 \<and> headerName name \<noteq> ''accept'' \<and> headerName name \<noteq> ''content-type''"
    then have "headersGet name (requestHeaders req) = headersGet name (headersAt hp1 (headersRef ctx))"
      using buildRequest_others[OF b] by simp
    also have "\<dots> = headersGet name given" using g kept[of a given name] by simp
    finally show "headersGet name (requestHeaders req) = headersGet name given" .
  qed
  have c5: "list_all keepsAccept (collectMiddlewares mm p)
          \<and> (\<forall>viaXhr req. headersGet ''Accept'' (requestHeaders req) = Some ''application/msgpack''
                \<longrightarrow> net viaXhr req = net' viaXhr req)
        \<longrightarrow> rpcCall P net baseUrl mm p rpc isContextRequested argsRecord options hp
            = rpcCall P net' baseUrl mm p rpc isContextRequested argsRecord options hp"
  proof
    assume h: "list_all keepsAccept (collectMiddlewares mm p)
          \<and> (\<forall>viaXhr req. headersGet ''Accept'' (requestHeaders req) = Some ''application/msgpack''
                \<longrightarrow> net viaXhr req = net' viaXhr req)"
    have pc: "path ctx = p" by (rule newClientContext_path[OF n])
    have "pipeline (ctx, hp1) (collectMiddlewares mm p @ [transportStage P net baseUrl])
            = pipeline (ctx, hp1) (collectMiddlewares mm p @ [transportStage P net' baseUrl])"
      using h by (intro pipeline_cong[OF _ _ acc]) simp_all
    then show "rpcCall P net baseUrl mm p rpc isContextRequested argsRecord options hp
            = rpcCall P net' baseUrl mm p rpc isContextRequested argsRecord options hp"
      by (simp add: rpcCall_def n pc Let_def)
  qed
  show ?thesis
    by (intro conjI acc c2 c3 c4 c5 rpcCall_acceptJson)
qed

theorem accept_always_msgpack_witness:
  "optHeaders callerOptions = Some 0
   \<and> objects callerHeap 0 = Some (headersSet ''Accept'' ''application/json'' Map.empty)
   \<and> fst (rpcCall samplePlatform echoAccept ''/api'' Map.empty [''posts'', ''create'']
            Command False None callerOptions callerHeap)
       = Reject (JsError ''application/msgpack'')
   \<and> list_all keepsAccept
         (collectMiddlewares (Map.empty('''' \<mapsto> [traceHeader])) [''posts'', ''create''])
   \<and> rpcCall samplePlatform echoAccept ''/api'' (Map.empty('''' \<mapsto> [traceHeader]))
         [''posts'', ''create''] Command False None callerOptions callerHeap
       = rpcCall samplePlatform
           (\<lambda>viaXhr req. if headersGet ''Accept'' (requestHeaders req) = Some ''application/msgpack''
                          then echoAccept viaXhr req else offline viaXhr req)
           ''/api'' (Map.empty('''' \<mapsto> [traceHeader]))
           [''posts'', ''create''] Command False None callerOptions callerHeap"
proof -
  let ?net' = "\<lambda>viaXhr req. if headersGet ''Accept'' (requestHeaders req) = Some ''application/msgpack''
                             then echoAccept viaXhr req else offline viaXhr req"
  have h: "optHeaders callerOptions = None
           \<or> (\<exists>a h. optHeaders callerOptions = Some a \<and> objects callerHeap a = Some h)"
    using callerOptions_headers callerHeap_headers by simp
  obtain ctx hp1 where
    n: "newClientContext [''posts'', ''create''] None Command callerOptions callerHeap = (ctx, hp1)"
    by (cases "newClientContext [''posts'', ''create''] None Command callerOptions callerHeap")
  have pc: "path ctx = [''posts'', ''create'']" by (rule newClientContext_path[OF n])
  obtain req c hp2 where
    b: "buildRequest samplePlatform ''/api'' ctx hp1 = (Resolve req, c, hp2)"
    by (rule buildRequest_Resolve[of samplePlatform "''/api''" ctx _ hp1])
       (simp only: pc newURL_browser)
  note direct = accept_always_msgpack[where P = samplePlatform and baseUrl = "''/api''"
      and mm = Map.empty and net = echoAccept and isContextRequested = False, OF h n]
  note d4 = direct[THEN conjunct2, THEN conjunct2, THEN conjunct2, THEN conjunct1,
      rule_format, OF collectMiddlewares_empty b]
  have sent: "fst (rpcCall samplePlatform echoAccept ''/api'' Map.empty [''posts'', ''create'']
                     Command False None callerOptions callerHeap)
              = Reject (JsError ''application/msgpack'')"
    using d4[THEN conjunct2, THEN conjunct2]
    by (simp add: echoAccept_def d4[THEN conjunct1])
  have k: "list_all keepsAccept
             (collectMiddlewares (Map.empty('''' \<mapsto> [traceHeader])) [''posts'', ''create''])"
    by (simp add: collectMiddlewares_global keepsAccept_traceHeader)
  note chain = accept_always_msgpack[where P = samplePlatform and baseUrl = "''/api''"
      and mm = "Map.empty('''' \<mapsto> [traceHeader])" and net = echoAccept and net' = ?net'
      and isContextRequested = False, OF h n]
  have same: "rpcCall samplePlatform echoAccept ''/api'' (Map.empty('''' \<mapsto> [traceHeader]))
         [''posts'', ''create''] Command False None callerOptions callerHeap
       = rpcCall samplePlatform ?net' ''/api'' (Map.empty('''' \<mapsto> [traceHeader]))
           [''posts'', ''create''] Command False None callerOptions callerHeap"
    by (rule chain[THEN conjunct2, THEN conjunct2, THEN conjunct2, THEN conjunct2,
                   THEN conjunct1, THEN mp])
       (simp add: k)
  show ?thesis
    by (intro conjI callerOptions_headers callerHeap_headers sent k same)
qed

lemma rpcCall_direct_msgpack:
  "fst (rpcCall samplePlatform echoAccept ''/api'' Map.empty [''posts'', ''create'']
          Command False None callerOptions callerHeap)
     = Reject (JsError ''application/msgpack'')"
proof -
  obtain ctx hp1 where
    n: "newClientContext [''posts'', ''create''] None Command callerOptions callerHeap = (ctx, hp1)"
    by (cases "newClientContext [''posts'', ''create''] None Command callerOptions callerHeap")
  have pc: "path ctx = [''posts'', ''create'']" by (rule newClientContext_path[OF n])
  have s: "sentAccept (ctx, hp1) = Some ''application/msgpack''"
    by (rule newClientContext_accept[OF _ n])
       (simp add: callerOptions_headers callerHeap_headers)
  have "fst (call samplePlatform echoAccept ''/api'' (ctx, hp1))
          = Reject (JsError ''application/msgpack'')"
    by (rule call_echoAccept[OF _ s]) (simp only: pc newURL_browser)
  then have "fst (pipeline (ctx, hp1)
                    (collectMiddlewares Map.empty [''posts'', ''create'']
                     @ [transportStage samplePlatform echoAccept ''/api'']))
               = Reject (JsError ''application/msgpack'')"
    by (simp add: collectMiddlewares_empty pipeline_Cons transportStage_Reject)
  then show ?thesis by (rule rpcCall_Reject[OF n])
qed

text \<open>
  C3 as stated fails: a caller whose headers object says \<open>Accept: application/json\<close>
  makes a call without middlewares, and neither the request that the transport builds nor
  what the network gets says so: the network gets \<open>application/msgpack\<close>.
\<close>

theorem accept_override_counterexample:
  "headersGet ''Accept'' (headersAt callerHeap 0) = Some ''application/json''
   \<and> optHeaders callerOptions = Some 0
   \<and> (\<exists>req c h.
         buildRequest samplePlatform ''/api''
           (fst (newClientContext [''posts'', ''create''] None Command callerOptions callerHeap))
           (snd (newClientContext [''posts'', ''create''] None Command callerOptions callerHeap))
         = (Resolve req, c, h)
         \<and> headersGet ''Accept'' (requestHeaders req) \<noteq> Some ''application/json'')
   \<and> fst (rpcCall samplePlatform echoAccept ''/api'' Map.empty [''posts'', ''create'']
            Command False None callerOptions callerHeap)
       \<noteq> Reject (JsError ''application/json'')"
proof -
  let ?new = "newClientContext [''posts'', ''create''] None Command callerOptions callerHeap"
  have a: "headersGet ''Accept'' (headersAt callerHeap 0) = Some ''application/json''"
    by (simp add: headersAt_def callerHeap_headers headersGet_def headersSet_def)
  have n: "?new = (fst ?new, snd ?new)" by simp
  have pc: "path (fst ?new) = [''posts'', ''create'']" by (rule newClientContext_path[OF n])
  have s: "sentAccept (fst ?new, snd ?new) = Some ''application/msgpack''"
    by (rule newClientContext_accept[OF _ n])
       (simp add: callerOptions_headers callerHeap_headers)
  obtain req c h where
    b: "buildRequest samplePlatform ''/api'' (fst ?new) (snd ?new) = (Resolve req, c, h)"
    by (rule buildRequest_Resolve[of samplePlatform "''/api''" "fst ?new" _ "snd ?new"])
       (simp only: pc newURL_browser)
  have "headersGet ''Accept'' (requestHeaders req) = Some ''application/msgpack''"
    using buildRequest_accept[OF b] s by simp
  then have built: "\<exists>req c h.
         buildRequest samplePlatform ''/api'' (fst ?new) (snd ?new) = (Resolve req, c, h)
         \<and> headersGet ''Accept'' (requestHeaders req) \<noteq> Some ''application/json''"
    using b by auto
  have sent: "fst (rpcCall samplePlatform echoAccept ''/api'' Map.empty [''posts'', ''create'']
            Command False None callerOptions callerHeap)
       \<noteq> Reject (JsError ''application/json'')"
    by (subst rpcCall_direct_msgpack) simp
  show ?thesis
    by (intro conjI a callerOptions_headers built sent)
qed

text \<open>When the URL cannot be made, \<open>call\<close> throws; so does the call, without middlewares.\<close>

lemma buildRequest_Reject:
  "newURL P (baseUrl @ ''/'' @ routeKey (path ctx)) (windowOrigin P) = None \<Longrightarrow>
   fst (buildRequest P baseUrl ctx hp) = Reject (JsError ''TypeError'')"
  by (simp add: buildRequest_def Let_def routeKey_def split: prod.splits)

lemma call_Reject:
  assumes "newURL P (baseUrl @ ''/'' @ routeKey (path ctx)) (windowOrigin P) = None"
  shows "fst (call P net baseUrl (ctx, hp)) = Reject (JsError ''TypeError'')"
proof -
  obtain r c h where b: "buildRequest P baseUrl ctx hp = (r, c, h)"
    by (cases "buildRequest P baseUrl ctx hp")
  with buildRequest_Reject[OF assms, of hp] have "r = Reject (JsError ''TypeError'')" by simp
  then show ?thesis by (simp add: call_def b)
qed

lemma rpcCall_no_middleware_Reject:
  assumes "newClientContext p argsRecord rpc options hp = (ctx, hp1)"
    and "fst (call P net baseUrl (ctx, hp1)) = Reject e"
  shows "fst (rpcCall P net baseUrl Map.empty p rpc isContextRequested argsRecord options hp)
           = Reject e"
proof -
  have "fst (pipeline (ctx, hp1) (collectMiddlewares Map.empty p @ [transportStage P net baseUrl]))
          = Reject e"
    by (simp add: collectMiddlewares_empty pipeline_Cons transportStage_Reject[OF assms(2)])
  then show ?thesis by (rule rpcCall_Reject[OF assms(1)])
qed

text \<open>
  C10, as the code has it. When the options carry a headers object, the context holds
  the address of that very object and nothing is allocated; the constructor writes
  \<open>accept: application/msgpack\<close> into it. In a command call without uploads whose URL
  can be made, the transport writes \<open>Content-Type: application/msgpack\<close> into the same
  object, whatever the network answers, and after the call the caller's object holds both
  entries. In every other call the transport writes nothing, and the caller's object
  holds what the constructor left. That is so in particular when \<open>new URL\<close> throws, as
  it does for a relative base outside a browser: the call rejects before the write.
\<close>

theorem caller_headers_shared:
  "optHeaders options = Some a \<Longrightarrow> objects hp a = Some h \<Longrightarrow>
   newClientContext p argsRecord rpc options hp = (ctx, hp1) \<Longrightarrow>
     headersRef ctx = a
     \<and> nextFree hp1 = nextFree hp
     \<and> objects hp1 = (objects hp)(a \<mapsto> headersSet ''accept'' ''application/msgpack'' h)
     \<and> (rpc = Command \<and> fst (extractUploads (args ctx)) = []
          \<and> newURL P (baseUrl @ ''/'' @ routeKey p) (windowOrigin P) \<noteq> None \<longrightarrow>
          objects (snd (snd (call P net baseUrl (ctx, hp1))))
            = (objects hp)(a \<mapsto> headersSet ''Content-Type'' ''application/msgpack''
                                  (headersSet ''accept'' ''application/msgpack'' h))
          \<and> objects (snd (rpcCall P net baseUrl Map.empty p rpc isContextRequested
                             argsRecord options hp))
            = (objects hp)(a \<mapsto> headersSet ''Content-Type'' ''application/msgpack''
                                  (headersSet ''accept'' ''application/msgpack'' h)))
     \<and> (\<not> (rpc = Command \<and> fst (extractUploads (args ctx)) = []
             \<and> newURL P (baseUrl @ ''/'' @ routeKey p) (windowOrigin P) \<noteq> None) \<longrightarrow>
          objects (snd (snd (call P net baseUrl (ctx, hp1)))) = objects hp1
          \<and> objects (snd (rpcCall P net baseUrl Map.empty p rpc isContextRequested
                             argsRecord options hp)) = objects hp1)
     \<and> (newURL P (baseUrl @ ''/'' @ routeKey p) (windowOrigin P) = None \<longrightarrow>
          fst (call P net baseUrl (ctx, hp1)) = Reject (JsError ''TypeError'')
          \<and> fst (rpcCall P net baseUrl Map.empty p rpc isContextRequested argsRecord options hp)
              = Reject (JsError ''TypeError''))"
proof -
  assume o: "optHeaders options = Some a" and h: "objects hp a = Some h"
    and n: "newClientContext p argsRecord rpc options hp = (ctx, hp1)"
  let ?written = "rpc = Command \<and> fst (extractUploads (args ctx)) = []
          \<and> newURL P (baseUrl @ ''/'' @ routeKey p) (windowOrigin P) \<noteq> None"
  from n have c: "headersRef ctx = a" and r: "rpcType ctx = rpc"
    and hp1: "hp1 = setHeaderAt a ''accept'' ''application/msgpack'' hp"
    by (auto simp: newClientContext_given[OF o])
  have pc: "path ctx = p" by (rule newClientContext_path[OF n])
  have o1: "objects hp1 = (objects hp)(a \<mapsto> headersSet ''accept'' ''application/msgpack'' h)"
    by (simp add: hp1 setHeaderAt_objects[OF h])
  then have at: "objects hp1 a = Some (headersSet ''accept'' ''application/msgpack'' h)"
    by simp
  have nf: "nextFree hp1 = nextFree hp"
    by (simp add: hp1 setHeaderAt_nextFree)
  have same: "snd (rpcCall P net baseUrl Map.empty p rpc isContextRequested argsRecord options hp)
                = snd (snd (call P net baseUrl (ctx, hp1)))"
    by (rule rpcCall_no_middleware_heap[OF n])
  have after: "objects (snd (snd (call P net baseUrl (ctx, hp1))))
                 = (objects hp)(a \<mapsto> headersSet ''Content-Type'' ''application/msgpack''
                                       (headersSet ''accept'' ''application/msgpack'' h))"
    if ?written
    using that by (simp add: call_heap buildRequest_heap r c pc setHeaderAt_objects[OF at] o1)
  have both: "?written \<longrightarrow>
          objects (snd (snd (call P net baseUrl (ctx, hp1))))
            = (objects hp)(a \<mapsto> headersSet ''Content-Type'' ''application/msgpack''
                                  (headersSet ''accept'' ''application/msgpack'' h))
          \<and> objects (snd (rpcCall P net baseUrl Map.empty p rpc isContextRequested
                             argsRecord options hp))
            = (objects hp)(a \<mapsto> headersSet ''Content-Type'' ''application/msgpack''
                                  (headersSet ''accept'' ''application/msgpack'' h))"
  proof
    assume t: ?written
    show "objects (snd (snd (call P net baseUrl (ctx, hp1))))
            = (objects hp)(a \<mapsto> headersSet ''Content-Type'' ''application/msgpack''
                                  (headersSet ''accept'' ''application/msgpack'' h))
          \<and> objects (snd (rpcCall P net baseUrl Map.empty p rpc isContextRequested
                             argsRecord options hp))
            = (objects hp)(a \<mapsto> headersSet ''Content-Type'' ''application/msgpack''
                                  (headersSet ''accept'' ''application/msgpack'' h))"
      unfolding same using after[OF t] by simp
  qed
  have untouched: "\<not> ?written \<longrightarrow>
          objects (snd (snd (call P net baseUrl (ctx, hp1)))) = objects hp1
          \<and> objects (snd (rpcCall P net baseUrl Map.empty p rpc isContextRequested
                             argsRecord options hp)) = objects hp1"
  proof
    assume t: "\<not> ?written"
    have "snd (snd (call P net baseUrl (ctx, hp1))) = hp1"
      using t by (simp only: call_heap buildRequest_heap r pc if_False)
    then show "objects (snd (snd (call P net baseUrl (ctx, hp1)))) = objects hp1
          \<and> objects (snd (rpcCall P net baseUrl Map.empty p rpc isContextRequested
                             argsRecord options hp)) = objects hp1"
      unfolding same by simp
  qed
  have thrown: "newURL P (baseUrl @ ''/'' @ routeKey p) (windowOrigin P) = None \<longrightarrow>
          fst (call P net baseUrl (ctx, hp1)) = Reject (JsError ''TypeError'')
          \<and> fst (rpcCall P net baseUrl Map.empty p rpc isContextRequested argsRecord options hp)
              = Reject (JsError ''TypeError'')"
  proof
    assume "newURL P (baseUrl @ ''/'' @ routeKey p) (windowOrigin P) = None"
    then have u: "newURL P (baseUrl @ ''/'' @ routeKey (path ctx)) (windowOrigin P) = None"
      by (simp only: pc)
    have "fst (call P net baseUrl (ctx, hp1)) = Reject (JsError ''TypeError'')"
      by (rule call_Reject[OF u])
    then show "fst (call P net baseUrl (ctx, hp1)) = Reject (JsError ''TypeError'')
          \<and> fst (rpcCall P net baseUrl Map.empty p rpc isContextRequested argsRecord options hp)
              = Reject (JsError ''TypeError'')"
      using rpcCall_no_middleware_Reject[OF n, of P net baseUrl "JsError ''TypeError''" isContextRequested]
      by simp
  qed
  show ?thesis
    by (intro conjI c nf o1 both untouched thrown)
qed

theorem caller_headers_shared_witness:
  "optHeaders callerOptions = Some 0
   \<and> objects callerHeap 0 = Some (headersSet ''Accept'' ''application/json'' Map.empty)
   \<and> headersAt (snd (rpcCall samplePlatform offline ''/api'' Map.empty [''posts'', ''create'']
                       Command False None callerOptions callerHeap)) 0
       = [''accept'' \<mapsto> ''application/msgpack'', ''content-type'' \<mapsto> ''application/msgpack'']
   \<and> headersAt (snd (rpcCall nodePlatform offline ''/api'' Map.empty [''posts'', ''create'']
                       Command False None callerOptions callerHeap)) 0
       = [''accept'' \<mapsto> ''application/msgpack'']
   \<and> fst (rpcCall nodePlatform offline ''/api'' Map.empty [''posts'', ''create'']
            Command False None callerOptions callerHeap)
       = Reject (JsError ''TypeError'')"
proof -
  obtain ctx hp1 where
    n: "newClientContext [''posts'', ''create''] None Command callerOptions callerHeap = (ctx, hp1)"
    by (cases "newClientContext [''posts'', ''create''] None Command callerOptions callerHeap")
  have e: "fst (extractUploads (args ctx)) = []"
    using n by (auto simp: newClientContext_given[OF callerOptions_headers] newMap_def
                  extractUploads_def)
  note browser = caller_headers_shared[where P = samplePlatform and net = offline
      and baseUrl = "''/api''" and isContextRequested = False,
      OF callerOptions_headers callerHeap_headers n]
  note node = caller_headers_shared[where P = nodePlatform and net = offline
      and baseUrl = "''/api''" and isContextRequested = False,
      OF callerOptions_headers callerHeap_headers n]
  have m: "[''accept'' \<mapsto> ''application/json'', ''accept'' \<mapsto> ''application/msgpack'',
         ''content-type'' \<mapsto> ''application/msgpack'']
        = [''accept'' \<mapsto> ''application/msgpack'', ''content-type'' \<mapsto> ''application/msgpack'']"
    by simp
  have ub: "newURL samplePlatform (''/api'' @ ''/'' @ routeKey [''posts'', ''create''])
              (windowOrigin samplePlatform) \<noteq> None"
    by (simp only: newURL_browser) simp
  note written = browser[THEN conjunct2, THEN conjunct2, THEN conjunct2, THEN conjunct1,
      rule_format, OF conjI[OF refl conjI[OF e ub]]]
  have w1: "headersAt (snd (rpcCall samplePlatform offline ''/api'' Map.empty [''posts'', ''create'']
                       Command False None callerOptions callerHeap)) 0
       = [''accept'' \<mapsto> ''application/msgpack'', ''content-type'' \<mapsto> ''application/msgpack'']"
    using m
    by (simp add: headersAt_def written[THEN conjunct2] headersSet_def headerName_Accept
          headerName_accept headerName_ContentType)
  have nw: "\<not> (Command = Command \<and> fst (extractUploads (args ctx)) = []
              \<and> newURL nodePlatform (''/api'' @ ''/'' @ routeKey [''posts'', ''create''])
                    (windowOrigin nodePlatform) \<noteq> None)"
    by (simp only: newURL_node) simp
  note untouched = node[THEN conjunct2, THEN conjunct2, THEN conjunct2, THEN conjunct2,
      THEN conjunct1, rule_format, OF nw]
  have w2: "headersAt (snd (rpcCall nodePlatform offline ''/api'' Map.empty [''posts'', ''create'']
                       Command False None callerOptions callerHeap)) 0
       = [''accept'' \<mapsto> ''application/msgpack'']"
    by (simp add: headersAt_def untouched[THEN conjunct2]
          node[THEN conjunct2, THEN conjunct2, THEN conjunct1]
          headersSet_def headerName_Accept headerName_accept)
  have w3: "fst (rpcCall nodePlatform offline ''/api'' Map.empty [''posts'', ''create'']
            Command False None callerOptions callerHeap)
       = Reject (JsError ''TypeError'')"
    by (rule node[THEN conjunct2, THEN conjunct2, THEN conjunct2, THEN conjunct2,
                  THEN conjunct2, rule_format, OF newURL_node, THEN conjunct2])
  show ?thesis
    by (intro conjI callerOptions_headers callerHeap_headers w1 w2 w3)
qed

lemma rpcCall_node_heap:
  "snd (rpcCall nodePlatform offline ''/api'' Map.empty [''posts'', ''create'']
          Command False None callerOptions callerHeap)
     = setHeaderAt 0 ''accept'' ''application/msgpack'' callerHeap"
proof -
  obtain ctx hp1 where
    n: "newClientContext [''posts'', ''create''] None Command callerOptions callerHeap = (ctx, hp1)"
    by (cases "newClientContext [''posts'', ''create''] None Command callerOptions callerHeap")
  then have hp1: "hp1 = setHeaderAt 0 ''accept'' ''application/msgpack'' callerHeap"
    by (auto simp: newClientContext_given[OF callerOptions_headers])
  have pc: "path ctx = [''posts'', ''create'']" by (rule newClientContext_path[OF n])
  have "snd (snd (buildRequest nodePlatform ''/api'' ctx hp1)) = hp1"
    unfolding buildRequest_heap pc newURL_node by simp
  then show ?thesis
    by (simp add: rpcCall_no_middleware_heap[OF n] call_heap hp1)
qed

text \<open>
  C10 as stated fails outside a browser with a relative base: the caller passes a
  headers object to a command call without uploads, base \<open>/api\<close>; the call rejects and
  the caller's object holds the constructor's \<open>accept\<close> and no \<open>Content-Type\<close>.
\<close>

theorem content_type_not_written_counterexample:
  "optHeaders callerOptions = Some 0
   \<and> fst (extractUploads
            (args (fst (newClientContext [''posts'', ''create''] None Command
                          callerOptions callerHeap)))) = []
   \<and> headersGet ''Content-Type''
        (headersAt (snd (rpcCall nodePlatform offline ''/api'' Map.empty [''posts'', ''create'']
                           Command False None callerOptions callerHeap)) 0) = None
   \<and> headersGet ''Accept''
        (headersAt (snd (rpcCall nodePlatform offline ''/api'' Map.empty [''posts'', ''create'']
                           Command False None callerOptions callerHeap)) 0)
       = Some ''application/msgpack''"
proof -
  have e: "fst (extractUploads
            (args (fst (newClientContext [''posts'', ''create''] None Command
                          callerOptions callerHeap)))) = []"
    by (simp add: newClientContext_given[OF callerOptions_headers] newMap_def extractUploads_def)
  have at: "headersAt (snd (rpcCall nodePlatform offline ''/api'' Map.empty [''posts'', ''create'']
                           Command False None callerOptions callerHeap)) 0
            = headersSet ''accept'' ''application/msgpack''
                (headersSet ''Accept'' ''application/json'' Map.empty)"
    by (simp add: rpcCall_node_heap headersAt_def setHeaderAt_objects[OF callerHeap_headers])
  have ct: "headersGet ''Content-Type''
        (headersAt (snd (rpcCall nodePlatform offline ''/api'' Map.empty [''posts'', ''create'']
                           Command False None callerOptions callerHeap)) 0) = None"
    unfolding at
    by (simp add: headersGet_def headersSet_def headerName_Accept headerName_accept
          headerName_ContentType)
  have ac: "headersGet ''Accept''
        (headersAt (snd (rpcCall nodePlatform offline ''/api'' Map.empty [''posts'', ''create'']
                           Command False None callerOptions callerHeap)) 0)
       = Some ''application/msgpack''"
    unfolding at
    by (simp add: headersGet_def headersSet_def headerName_Accept headerName_accept)
  show ?thesis
    by (intro conjI callerOptions_headers e ct ac)
qed

section \<open>Properties of the request handler\<close>

lemma headerName_ValidationError: "headerName ''X-Tango-Validation-Error'' = ''x-tango-validation-error''"
  by code_simp

lemma headerName_ExecutionTime: "headerName ''X-Tango-Execution-Time'' = ''x-tango-execution-time''"
  by code_simp

lemma headerName_CacheControl: "headerName ''Cache-Control'' = ''cache-control''"
  by code_simp

lemma endpointStage_invalid:
  "zodSchema d = Some parse \<Longrightarrow> parse (getArgs ctx) = Inl issues \<Longrightarrow>
   endpointStage d ctx next = (Reject (ZodError issues), ctx)"
  by (simp add: endpointStage_def)

text \<open>The response of the \<open>catch\<close> block to a validation failure.\<close>

lemma handleFailure_ZodError:
  "handleFailure P (ZodError issues) ctx =
     Resolve \<lparr>status = 422, statusText = [],
              responseHeaders =
                headersSet ''Content-Type''
                  (if prefersJson (eventRequest (ctxEvent ctx)) then ''application/json''
                   else ''application/msgpack'')
                  (headersSet ''X-Tango-Execution-Time'' (elapsedTime P)
                     (headersSet ''X-Tango-Validation-Error'' ''true'' (ctxResponseHeaders ctx))),
              responseBody =
                (if prefersJson (eventRequest (ctxEvent ctx)) then jsonStringify P issues
                 else pack P issues)\<rparr>"
  by (simp add: handleFailure_def makeResponse_def cacheSet_def cacheGet_def statusGet_def
        newResponse_def prefersJson_def Let_def)

lemma runEndpoint_rejected:
  "pipeline ctx (middlewares @ [endpointStage d]) = (Reject e, ctx1) \<Longrightarrow>
   runEndpoint P d middlewares ctx = handleFailure P e ctx1"
  by (simp add: runEndpoint_def)

lemma validation_failure_reaches_handler:
  assumes "pipeline ctx0 (middlewares @ [endpointStage d]) = (Reject (ZodError issues), ctx1)"
  shows "\<exists>r. runEndpoint P d middlewares ctx0 = Resolve r
             \<and> status r = 422
             \<and> headersGet ''X-Tango-Validation-Error'' (responseHeaders r) = Some ''true''
             \<and> headersGet ''Cache-Control'' (responseHeaders r)
                 = headersGet ''Cache-Control'' (ctxResponseHeaders ctx1)
             \<and> responseHeaders r =
                 headersSet ''Content-Type''
                   (if prefersJson (eventRequest (ctxEvent ctx1)) then ''application/json''
                    else ''application/msgpack'')
                   (headersSet ''X-Tango-Execution-Time'' (elapsedTime P)
                      (headersSet ''X-Tango-Validation-Error'' ''true'' (ctxResponseHeaders ctx1)))
             \<and> responseBody r =
                 (if prefersJson (eventRequest (ctxEvent ctx1)) then jsonStringify P issues
                  else pack P issues)"
proof -
  from assms have "runEndpoint P d middlewares ctx0 = handleFailure P (ZodError issues) ctx1"
    by (rule runEndpoint_rejected)
  then show ?thesis
    by (simp add: handleFailure_ZodError headersGet_def headersSet_def
          headerName_ValidationError headerName_ExecutionTime headerName_CacheControl
          headerName_ContentType)
qed

text \<open>
  C6, as the code has it. When the schema of the endpoint raises issues on the
  arguments, the last stage rejects with them and the implementation is not run. When
  that failure reaches the handler (as it does when no middleware stands before the
  endpoint, and whenever the middlewares pass it on), the response has status 422, the
  header \<open>X-Tango-Validation-Error: true\<close> and the serialized issues as its body (JSON
  or MessagePack by the request's \<open>Accept\<close>). The cache directive is set to zero, so
  the serializer adds no \<open>Cache-Control\<close> header: the headers of the response are those
  of the context with the validation header, the execution time and the content type
  set, and its \<open>Cache-Control\<close> is the one that the response headers of the context
  held already, none when nothing had written one there.
\<close>

theorem validation_failure_response:
  "(zodSchema d = Some parse \<and> parse (getArgs ctx) = Inl issues
      \<longrightarrow> endpointStage d ctx next = (Reject (ZodError issues), ctx)
          \<and> (\<exists>r. runEndpoint P d [] ctx = Resolve r
                 \<and> status r = 422
                 \<and> headersGet ''X-Tango-Validation-Error'' (responseHeaders r) = Some ''true''
                 \<and> headersGet ''Cache-Control'' (responseHeaders r)
                     = headersGet ''Cache-Control'' (ctxResponseHeaders ctx)
                 \<and> responseBody r =
                     (if prefersJson (eventRequest (ctxEvent ctx)) then jsonStringify P issues
                      else pack P issues)))
   \<and> (pipeline ctx0 (middlewares @ [endpointStage d]) = (Reject (ZodError issues), ctx1)
      \<longrightarrow> (\<exists>r. runEndpoint P d middlewares ctx0 = Resolve r
             \<and> status r = 422
             \<and> headersGet ''X-Tango-Validation-Error'' (responseHeaders r) = Some ''true''
             \<and> headersGet ''Cache-Control'' (responseHeaders r)
                 = headersGet ''Cache-Control'' (ctxResponseHeaders ctx1)
             \<and> responseHeaders r =
                 headersSet ''Content-Type''
                   (if prefersJson (eventRequest (ctxEvent ctx1)) then ''application/json''
                    else ''application/msgpack'')
                   (headersSet ''X-Tango-Execution-Time'' (elapsedTime P)
                      (headersSet ''X-Tango-Validation-Error'' ''true'' (ctxResponseHeaders ctx1)))
             \<and> responseBody r =
                 (if prefersJson (eventRequest (ctxEvent ctx1)) then jsonStringify P issues
                  else pack P issues)))
   \<and> cacheGet (cacheSet 0 ctx1) = 0"
proof (intro conjI impI)
  assume a: "zodSchema d = Some parse \<and> parse (getArgs ctx) = Inl issues"
  then show "endpointStage d ctx next = (Reject (ZodError issues), ctx)"
    by (simp add: endpointStage_invalid)
  from a have "pipeline ctx ([] @ [endpointStage d]) = (Reject (ZodError issues), ctx)"
    by (simp add: pipeline_Cons endpointStage_invalid)
  from validation_failure_reaches_handler[OF this, of P]
  show "\<exists>r. runEndpoint P d [] ctx = Resolve r
                 \<and> status r = 422
                 \<and> headersGet ''X-Tango-Validation-Error'' (responseHeaders r) = Some ''true''
                 \<and> headersGet ''Cache-Control'' (responseHeaders r)
                     = headersGet ''Cache-Control'' (ctxResponseHeaders ctx)
                 \<and> responseBody r =
                     (if prefersJson (eventRequest (ctxEvent ctx)) then jsonStringify P issues
                      else pack P issues)"
    by blast
next
  assume "pipeline ctx0 (middlewares @ [endpointStage d]) = (Reject (ZodError issues), ctx1)"
  then show "\<exists>r. runEndpoint P d middlewares ctx0 = Resolve r
             \<and> status r = 422
             \<and> headersGet ''X-Tango-Validation-Error'' (responseHeaders r) = Some ''true''
             \<and> headersGet ''Cache-Control'' (responseHeaders r)
                 = headersGet ''Cache-Control'' (ctxResponseHeaders ctx1)
             \<and> responseHeaders r =
                 headersSet ''Content-Type''
                   (if prefersJson (eventRequest (ctxEvent ctx1)) then ''application/json''
                    else ''application/msgpack'')
                   (headersSet ''X-Tango-Execution-Time'' (elapsedTime P)
                      (headersSet ''X-Tango-Validation-Error'' ''true'' (ctxResponseHeaders ctx1)))
             \<and> responseBody r =
                 (if prefersJson (eventRequest (ctxEvent ctx1)) then jsonStringify P issues
                  else pack P issues)"
    by (rule validation_failure_reaches_handler)
next
  show "cacheGet (cacheSet 0 ctx1) = 0"
    by (simp add: cacheGet_def cacheSet_def)
qed

lemma searchEvent_dispatch:
  "handler samplePlatform noFormData sampleApi None searchEvent =
     runEndpoint samplePlatform searchPosts [cacheMinute] (newServerContext (VObj []) searchEvent)"
  by (simp add: handler_def searchEvent_def plainEvent_def acceptedMethods_def acceptedRequests_def
        findRpcMethodDescriptor_def sampleApi_def searchPosts_def parseArgs_def parseQuery_def
        Let_def)

lemma searchEvent_pipeline:
  "pipeline (newServerContext (VObj []) searchEvent) ([cacheMinute] @ [endpointStage searchPosts])
     = (Reject (ZodError searchIssues), cacheSet 60 (newServerContext (VObj []) searchEvent))"
  by (simp add: pipeline_Cons cacheMinute_def around_def endpointStage_def searchPosts_def
        searchSchema_def getArgs_def newServerContext_def newMap_def objectEntries_def cacheSet_def)

theorem validation_failure_response_witness:
  "pipeline (newServerContext (VObj []) searchEvent) ([cacheMinute] @ [endpointStage searchPosts])
     = (Reject (ZodError searchIssues), cacheSet 60 (newServerContext (VObj []) searchEvent))
   \<and> httpMethod (eventRequest searchEvent) = ''GET''
   \<and> cacheGet (cacheSet 60 (newServerContext (VObj []) searchEvent)) = 60
   \<and> (\<exists>r. handler samplePlatform noFormData sampleApi None searchEvent = Resolve r
          \<and> status r = 422
          \<and> headersGet ''X-Tango-Validation-Error'' (responseHeaders r) = Some ''true''
          \<and> headersGet ''Cache-Control'' (responseHeaders r) = None
          \<and> responseBody r = pack samplePlatform searchIssues)"
proof -
  let ?ctx1 = "cacheSet 60 (newServerContext (VObj []) searchEvent)"
  have h: "ctxResponseHeaders ?ctx1 = Map.empty"
    by (simp add: cacheSet_def newServerContext_def)
  have j: "\<not> prefersJson (eventRequest (ctxEvent ?ctx1))"
    by (simp add: cacheSet_def newServerContext_def searchEvent_def plainEvent_def
          prefersJson_def headersGet_def)
  have g: "httpMethod (eventRequest searchEvent) = ''GET''"
    by (simp add: searchEvent_def plainEvent_def)
  have c: "cacheGet ?ctx1 = 60"
    by (simp add: cacheGet_def cacheSet_def)
  from validation_failure_response[where d = searchPosts and issues = searchIssues
      and ?ctx0.0 = "newServerContext (VObj []) searchEvent" and middlewares = "[cacheMinute]"
      and ?ctx1.0 = ?ctx1 and P = samplePlatform]
    searchEvent_pipeline
  obtain r where
    "runEndpoint samplePlatform searchPosts [cacheMinute] (newServerContext (VObj []) searchEvent)
       = Resolve r"
    "status r = 422"
    "headersGet ''X-Tango-Validation-Error'' (responseHeaders r) = Some ''true''"
    "headersGet ''Cache-Control'' (responseHeaders r) = headersGet ''Cache-Control'' (ctxResponseHeaders ?ctx1)"
    "responseBody r = (if prefersJson (eventRequest (ctxEvent ?ctx1))
                       then jsonStringify samplePlatform searchIssues
                       else pack samplePlatform searchIssues)"
    by blast
  then show ?thesis
    using searchEvent_pipeline g c searchEvent_dispatch h j
    by (simp add: headersGet_def)
qed

lemma noStore_dispatch:
  "handler samplePlatform noFormData noStoreApi None searchEvent =
     runEndpoint samplePlatform searchPosts [noStore] (newServerContext (VObj []) searchEvent)"
  by (simp add: handler_def searchEvent_def plainEvent_def acceptedMethods_def acceptedRequests_def
        findRpcMethodDescriptor_def noStoreApi_def searchPosts_def parseArgs_def parseQuery_def
        Let_def)

lemma noStore_pipeline:
  "pipeline (newServerContext (VObj []) searchEvent) ([noStore] @ [endpointStage searchPosts])
     = (Reject (ZodError searchIssues),
        (newServerContext (VObj []) searchEvent)
          \<lparr>ctxResponseHeaders := headersSet ''Cache-Control'' ''no-store'' Map.empty\<rparr>)"
  by (simp add: pipeline_Cons noStore_def around_def endpointStage_def searchPosts_def
        searchSchema_def getArgs_def newServerContext_def newMap_def objectEntries_def)

text \<open>
  C6 as stated fails: a middleware before the endpoint has written \<open>Cache-Control:
  no-store\<close> into the response headers of the context, the schema raises issues, and the
  422 response with \<open>X-Tango-Validation-Error: true\<close> carries that \<open>Cache-Control\<close>
  header.
\<close>

theorem validation_failure_no_store_counterexample:
  "zodSchema searchPosts = Some searchSchema
   \<and> searchSchema (VObj []) = Inl searchIssues
   \<and> (\<exists>r. handler samplePlatform noFormData noStoreApi None searchEvent = Resolve r
          \<and> status r = 422
          \<and> headersGet ''X-Tango-Validation-Error'' (responseHeaders r) = Some ''true''
          \<and> headersGet ''Cache-Control'' (responseHeaders r) = Some ''no-store''
          \<and> responseBody r = pack samplePlatform searchIssues)"
proof -
  let ?ctx1 = "(newServerContext (VObj []) searchEvent)
                 \<lparr>ctxResponseHeaders := headersSet ''Cache-Control'' ''no-store'' Map.empty\<rparr>"
  have j: "\<not> prefersJson (eventRequest (ctxEvent ?ctx1))"
    by (simp add: newServerContext_def searchEvent_def plainEvent_def prefersJson_def
          headersGet_def)
  have s: "zodSchema searchPosts = Some searchSchema" by (simp add: searchPosts_def)
  have i: "searchSchema (VObj []) = Inl searchIssues" by (simp add: searchSchema_def)
  from validation_failure_reaches_handler[OF noStore_pipeline, of samplePlatform]
  obtain r where
    "runEndpoint samplePlatform searchPosts [noStore] (newServerContext (VObj []) searchEvent)
       = Resolve r"
    "status r = 422"
    "headersGet ''X-Tango-Validation-Error'' (responseHeaders r) = Some ''true''"
    "headersGet ''Cache-Control'' (responseHeaders r)
       = headersGet ''Cache-Control'' (ctxResponseHeaders ?ctx1)"
    "responseBody r = (if prefersJson (eventRequest (ctxEvent ?ctx1))
                       then jsonStringify samplePlatform searchIssues
                       else pack samplePlatform searchIssues)"
    by blast
  then have "\<exists>r. handler samplePlatform noFormData noStoreApi None searchEvent = Resolve r
          \<and> status r = 422
          \<and> headersGet ''X-Tango-Validation-Error'' (responseHeaders r) = Some ''true''
          \<and> headersGet ''Cache-Control'' (responseHeaders r) = Some ''no-store''
          \<and> responseBody r = pack samplePlatform searchIssues"
    using noStore_dispatch j
    by (simp add: headersGet_def headersSet_def)
  with s i show ?thesis by simp
qed

text \<open>
  C1 at a concrete input. The client builds the route \<open>users.get-profile\<close> for the
  path \<open>users\<close>, \<open>getProfile\<close>; the handler, given that route for an API with the
  endpoint \<open>users.getProfile\<close>, splits it at \<open>/\<close>, finds no member of that name and
  answers 404. The route it does resolve is \<open>users/getProfile\<close>.
\<close>

theorem dotted_route_is_not_found:
  "fst (buildRequest samplePlatform ''/api''
          (fst (newClientContext [''users'', ''getProfile''] None Query noOptions emptyHeap))
          (snd (newClientContext [''users'', ''getProfile''] None Query noOptions emptyHeap)))
     = Resolve \<lparr>url = ''https://example.org/api/users.get-profile'',
                searchParams = [],
                requestMethod = ''GET'',
                requestHeaders = [''accept'' \<mapsto> ''application/msgpack''],
                requestBody = None\<rparr>
   \<and> paramsPath dottedEvent = Some ''users.get-profile''
   \<and> handler samplePlatform noFormData sampleApi None dottedEvent
       = textResponse ''RPC method not found'' 404
   \<and> paramsPath plainEvent = Some ''users/getProfile''
   \<and> handler samplePlatform noFormData sampleApi None plainEvent
       = Resolve \<lparr>status = 200, statusText = [],
                  responseHeaders = [''x-tango-execution-time'' \<mapsto> ''0.5'',
                                     ''content-type'' \<mapsto> ''application/msgpack''],
                  responseBody = ''packed''\<rparr>"
proof -
  have k: "camelToKebabCase ''users'' = ''users''" "camelToKebabCase ''getProfile'' = ''get-profile''"
    by code_simp+
  have u: "fst (buildRequest samplePlatform ''/api''
          (fst (newClientContext [''users'', ''getProfile''] None Query noOptions emptyHeap))
          (snd (newClientContext [''users'', ''getProfile''] None Query noOptions emptyHeap)))
     = Resolve \<lparr>url = ''https://example.org/api/users.get-profile'',
                searchParams = [],
                requestMethod = ''GET'',
                requestHeaders = [''accept'' \<mapsto> ''application/msgpack''],
                requestBody = None\<rparr>"
    by (simp add: buildRequest_def newClientContext_def noOptions_def newHeaders_def emptyHeap_def
          setHeaderAt_def headersAt_def headersSet_def headerName_accept newMap_def
          samplePlatform_def sampleNewURL_def Let_def k
          split: prod.splits)
  have d: "handler samplePlatform noFormData sampleApi None dottedEvent
             = textResponse ''RPC method not found'' 404"
    by (simp add: handler_def dottedEvent_def plainEvent_def acceptedMethods_def
          findRpcMethodDescriptor_def sampleApi_def Let_def)
  have s: "handler samplePlatform noFormData sampleApi None plainEvent
       = Resolve \<lparr>status = 200, statusText = [],
                  responseHeaders = [''x-tango-execution-time'' \<mapsto> ''0.5'',
                                     ''content-type'' \<mapsto> ''application/msgpack''],
                  responseBody = ''packed''\<rparr>"
    by (simp add: handler_def plainEvent_def acceptedMethods_def acceptedRequests_def
          findRpcMethodDescriptor_def sampleApi_def getProfile_def parseArgs_def parseQuery_def
          runEndpoint_def pipeline_Cons endpointStage_def makeResponse_def newResponse_def
          newServerContext_def statusGet_def cacheGet_def headersGet_def headersSet_def
          headerName_Accept headerName_ExecutionTime headerName_ContentType
          samplePlatform_def Let_def)
  show ?thesis
    using u d s by (simp add: dottedEvent_def plainEvent_def)
qed

text \<open>
  C2 at a concrete input. A \<open>POST\<close> to the command \<open>posts.create\<close> with
  \<open>Content-Type: text/plain\<close> falls into the MessagePack branch. With an empty body the
  arguments are the empty record, the implementation runs (it sets the status 201) and
  the response is its result; with a body that does not decode the answer is 400. In
  neither case is it 415.
\<close>

theorem text_plain_command_is_run:
  "headersGet ''Content-Type'' (httpHeaders (eventRequest textPlainEvent)) = Some ''text/plain''
   \<and> httpMethod (eventRequest textPlainEvent) = ''POST''
   \<and> handler samplePlatform noFormData sampleApi None textPlainEvent
       = Resolve \<lparr>status = 201, statusText = [],
                  responseHeaders = [''x-tango-execution-time'' \<mapsto> ''0.5'',
                                     ''content-type'' \<mapsto> ''application/msgpack''],
                  responseBody = ''packed''\<rparr>
   \<and> handler samplePlatform noFormData sampleApi None
         (textPlainEvent\<lparr>eventRequest := (eventRequest textPlainEvent)\<lparr>httpBody := ''title''\<rparr>\<rparr>)
       = textResponse ''Invalid msgpackr body'' 400"
proof -
  have t: "\<not> stringIncludes ''text/plain'' ''multipart/form-data''"
          "\<not> stringIncludes ''text/plain'' ''application/json''"
    by simp_all
  have r: "handler samplePlatform noFormData sampleApi None textPlainEvent
       = Resolve \<lparr>status = 201, statusText = [],
                  responseHeaders = [''x-tango-execution-time'' \<mapsto> ''0.5'',
                                     ''content-type'' \<mapsto> ''application/msgpack''],
                  responseBody = ''packed''\<rparr>"
    by (simp add: handler_def textPlainEvent_def acceptedMethods_def acceptedRequests_def
          findRpcMethodDescriptor_def sampleApi_def createPost_def parseArgs_def
          parseCommandMsgpackr_def t
          runEndpoint_def pipeline_Cons cacheMinute_def around_def cacheSet_def
          endpointStage_def makeResponse_def newResponse_def
          newServerContext_def statusGet_def cacheGet_def headersGet_def headersSet_def
          headerName_Accept headerName_ExecutionTime headerName_ContentType
          samplePlatform_def Let_def)
  have b: "handler samplePlatform noFormData sampleApi None
         (textPlainEvent\<lparr>eventRequest := (eventRequest textPlainEvent)\<lparr>httpBody := ''title''\<rparr>\<rparr>)
       = textResponse ''Invalid msgpackr body'' 400"
    by (simp add: handler_def textPlainEvent_def acceptedMethods_def acceptedRequests_def
          findRpcMethodDescriptor_def sampleApi_def createPost_def parseArgs_def
          parseCommandMsgpackr_def t headersGet_def headersSet_def headerName_ContentType
          samplePlatform_def Let_def)
  show ?thesis
    using r b by (simp add: textPlainEvent_def headersGet_def headersSet_def headerName_ContentType)
qed

end
